theory Spec2Isabelle
  imports Main "HOL-Library.Multiset"
begin

section \<open>Strings (Go package \<open>strings\<close>, on byte strings)\<close>

text \<open>
  A Go string is a byte sequence: \<open>string\<close> (a \<open>char list\<close>) here, in UTF-8 where the
  text is not ASCII. The helpers below are the functions of package \<open>strings\<close> that the
  program calls.
\<close>

definition nl :: string where
  "nl = [CHR 0x0A]"

definition HasPrefix :: "string \<Rightarrow> string \<Rightarrow> bool" where
  "HasPrefix s p \<longleftrightarrow> take (length p) s = p"

text \<open>
  \<open>strings.TrimSpace\<close> takes off the leading and then the trailing white space, where
  white space is what \<open>unicode.IsSpace\<close> accepts: tab, line feed, vertical tab, form feed,
  carriage return, space, U+0085, U+00A0, U+1680, U+2000 to U+200A, U+2028, U+2029,
  U+202F, U+205F and U+3000. \<open>spaceRunes\<close> are their UTF-8 encodings; \<open>runeWidth rs s\<close> is
  the length of the one \<open>s\<close> starts with, 0 if there is none. A byte that is not part of
  such an encoding stops the trimming, as an invalid or any other rune does.
\<close>

definition spaceRunes :: "string list" where
  "spaceRunes =
     [[CHR 0x09], [CHR 0x0A], [CHR 0x0B], [CHR 0x0C], [CHR 0x0D], [CHR 0x20],
      [CHR 0xC2, CHR 0x85], [CHR 0xC2, CHR 0xA0],
      [CHR 0xE1, CHR 0x9A, CHR 0x80],
      [CHR 0xE2, CHR 0x80, CHR 0x80], [CHR 0xE2, CHR 0x80, CHR 0x81],
      [CHR 0xE2, CHR 0x80, CHR 0x82], [CHR 0xE2, CHR 0x80, CHR 0x83],
      [CHR 0xE2, CHR 0x80, CHR 0x84], [CHR 0xE2, CHR 0x80, CHR 0x85],
      [CHR 0xE2, CHR 0x80, CHR 0x86], [CHR 0xE2, CHR 0x80, CHR 0x87],
      [CHR 0xE2, CHR 0x80, CHR 0x88], [CHR 0xE2, CHR 0x80, CHR 0x89],
      [CHR 0xE2, CHR 0x80, CHR 0x8A],
      [CHR 0xE2, CHR 0x80, CHR 0xA8], [CHR 0xE2, CHR 0x80, CHR 0xA9],
      [CHR 0xE2, CHR 0x80, CHR 0xAF], [CHR 0xE2, CHR 0x81, CHR 0x9F],
      [CHR 0xE3, CHR 0x80, CHR 0x80]]"

fun runeWidth :: "string list \<Rightarrow> string \<Rightarrow> nat" where
  "runeWidth [] s = 0"
| "runeWidth (r # rs) s = (if HasPrefix s r then length r else runeWidth rs s)"

function trimRunes :: "string list \<Rightarrow> string \<Rightarrow> string" where
  "trimRunes rs s =
     (if runeWidth rs s = 0 then s else trimRunes rs (drop (runeWidth rs s) s))"
  by pat_completeness auto
termination
proof (relation "measure (\<lambda>(rs, s). length s)")
  show "wf (measure (\<lambda>(rs, s). length s))" by simp
next
  fix rs :: "string list" and s :: string
  assume w: "runeWidth rs s \<noteq> 0"
  have "runeWidth rs' [] = 0" for rs' :: "string list"
    by (induction rs') (auto simp: HasPrefix_def)
  with w have "s \<noteq> []" by auto
  with w show "((rs, drop (runeWidth rs s) s), (rs, s)) \<in> measure (\<lambda>(rs, s). length s)"
    by simp
qed

definition TrimSpace :: "string \<Rightarrow> string" where
  "TrimSpace s = rev (trimRunes (map rev spaceRunes) (rev (trimRunes spaceRunes s)))"

definition HasSuffix :: "string \<Rightarrow> string \<Rightarrow> bool" where
  "HasSuffix s suf \<longleftrightarrow> length suf \<le> length s \<and> drop (length s - length suf) s = suf"

definition TrimPrefix :: "string \<Rightarrow> string \<Rightarrow> string" where
  "TrimPrefix s p = (if HasPrefix s p then drop (length p) s else s)"

definition TrimSuffix :: "string \<Rightarrow> string \<Rightarrow> string" where
  "TrimSuffix s suf = (if HasSuffix s suf then take (length s - length suf) s else s)"

text \<open>\<open>Cut s sep\<close>: the text before and after the first occurrence of \<open>sep\<close> in \<open>s\<close>.\<close>

fun Cut :: "string \<Rightarrow> string \<Rightarrow> (string \<times> string) option" where
  "Cut [] sep = (if sep = [] then Some ([], []) else None)"
| "Cut (c # cs) sep =
     (if HasPrefix (c # cs) sep then Some ([], drop (length sep) (c # cs))
      else (case Cut cs sep of None \<Rightarrow> None | Some (a, b) \<Rightarrow> Some (c # a, b)))"

definition Contains :: "string \<Rightarrow> string \<Rightarrow> bool" where
  "Contains s sub \<longleftrightarrow> Cut s sub \<noteq> None"

text \<open>
  \<open>SplitN s sep n\<close> for a non-empty separator: at most \<open>n\<close> pieces, the last one the
  unsplit rest; \<open>Split\<close> is \<open>SplitN\<close> with as many pieces as there can be.
\<close>

fun SplitN :: "string \<Rightarrow> string \<Rightarrow> nat \<Rightarrow> string list" where
  "SplitN s sep 0 = []"
| "SplitN s sep (Suc 0) = [s]"
| "SplitN s sep (Suc (Suc n)) =
     (case Cut s sep of None \<Rightarrow> [s] | Some (a, b) \<Rightarrow> a # SplitN b sep (Suc n))"

definition Split :: "string \<Rightarrow> string \<Rightarrow> string list" where
  "Split s sep = SplitN s sep (Suc (length s))"


section \<open>Data model and the outside world\<close>

text \<open>
  A \<open>time.Time\<close> is an instant, counted from the zero \<open>Time\<close>; \<open>t.After(u)\<close> is \<open>u < t\<close>.
\<close>

type_synonym time = int

definition zeroTime :: time where
  "zeroTime = 0"

record Branch =
  Name :: string
  CommitDate :: time
  CommitTitle :: string
  LastUsed :: time
  IsRemote :: bool
  RelativeTime :: string

text \<open>
  Every error value the program builds with \<open>fmt.Errorf\<close>, one constructor for each
  message, and the run-time panic of a slice expression with a bad bound.
\<close>

datatype error =
    NotInRepository
  | CurrentUserFailed
  | ReflogFailed
  | BranchInfoFailed string
  | RootCommitFailed
  | CurrentBranchFailed
  | ChangesCheckFailed
  | AlreadyOnBranch string
  | CreateCheckoutFailed string
  | CheckoutFailed string
  | StageFailed
  | CommitFailed
  | StashFailed
  | PanicSliceBounds int

text \<open>
  A git command is its argument list. The world answers a command with its standard
  output, or with \<open>None\<close> when the command fails (a non-nil \<open>err\<close>). \<open>now e k\<close> is the
  value of the \<open>k\<close>-th call of \<open>time.Now()\<close>. Three library routines that work from
  tables or code of the Go runtime are fields as well: \<open>time.Parse layout value\<close>,
  \<open>strings.ToLower\<close> (the case tables of package \<open>unicode\<close>) and \<open>sort.Slice\<close>, which is
  given the \<open>less\<close> function and the slice.
\<close>

type_synonym cmd = "string list"

record env =
  run :: "cmd \<Rightarrow> string option"
  now :: "nat \<Rightarrow> time"
  time_Parse :: "string \<Rightarrow> string \<Rightarrow> time option"
  strings_ToLower :: "string \<Rightarrow> string"
  sort_Slice :: "(Branch \<Rightarrow> Branch \<Rightarrow> bool) \<Rightarrow> Branch list \<Rightarrow> Branch list"

text \<open>
  What the documentation of \<open>sort.Slice\<close> promises for a \<open>less\<close> that is a strict weak
  order: the slice is rearranged (same elements) into an order in which no element is
  \<open>less\<close> than an earlier one. It does not promise to keep equal elements in place.
\<close>

definition strictWeak :: "('a \<Rightarrow> 'a \<Rightarrow> bool) \<Rightarrow> bool" where
  "strictWeak lt \<longleftrightarrow>
     (\<forall>x y. lt x y \<longrightarrow> \<not> lt y x) \<and>
     (\<forall>x y z. \<not> lt y x \<and> \<not> lt z y \<longrightarrow> \<not> lt z x)"

definition sortContract ::
  "((Branch \<Rightarrow> Branch \<Rightarrow> bool) \<Rightarrow> Branch list \<Rightarrow> Branch list) \<Rightarrow> bool" where
  "sortContract srt \<longleftrightarrow>
     (\<forall>lt xs. strictWeak lt \<longrightarrow>
        mset (srt lt xs) = mset xs \<and> sorted_wrt (\<lambda>x y. \<not> lt y x) (srt lt xs))"


section \<open>The git service (src/git.go)\<close>

text \<open>
  src/git.go holds two listings of the service. They are the same in everything modelled
  here except one branch of \<open>branchHasAuthorCommits\<close>: \<open>RevA\<close> is the listing that starts at
  line 1, \<open>RevB\<close> the one that starts at line 639. Line numbers in the comments below are
  those of the first listing.
\<close>

datatype revision = RevA | RevB

definition IsInRepository :: "env \<Rightarrow> bool" where
  "IsInRepository e \<longleftrightarrow> run e [''rev-parse'', ''--git-dir''] \<noteq> None"

definition GetCurrentUser :: "env \<Rightarrow> string option" where
  "GetCurrentUser e =
     (case run e [''config'', ''user.email''] of
        Some output \<Rightarrow> Some (TrimSpace output)
      | None \<Rightarrow>
          (case run e [''config'', ''user.name''] of
             Some output \<Rightarrow> Some (TrimSpace output)
           | None \<Rightarrow> None))"

definition GetCurrentBranch :: "env \<Rightarrow> string option" where
  "GetCurrentBranch e =
     (case run e [''rev-parse'', ''--abbrev-ref'', ''HEAD''] of
        None \<Rightarrow> None
      | Some output \<Rightarrow> Some (TrimSpace output))"

fun firstParse :: "env \<Rightarrow> string list \<Rightarrow> string \<Rightarrow> time option" where
  "firstParse e [] dateStr = None"
| "firstParse e (format # formats) dateStr =
     (case time_Parse e format dateStr of
        Some t \<Rightarrow> Some t
      | None \<Rightarrow> firstParse e formats dateStr)"

definition parseGitDate :: "env \<Rightarrow> string \<Rightarrow> time option" where
  "parseGitDate e dateStr =
     firstParse e
       [''2006-01-02T15:04:05-07:00'', ''2006-01-02T15:04:05Z'',
        ''2006-01-02T15:04:05+00:00'', ''2006-01-02 15:04:05 -0700'']
       dateStr"

definition parseTimestamp :: "env \<Rightarrow> string \<Rightarrow> time option" where
  "parseTimestamp e timestampStr = time_Parse e ''1136239445'' timestampStr"

subsection \<open>Enumerating branches: \<open>getBranchInfo\<close>\<close>

text \<open>
  One round of the loop over the lines of \<open>git for-each-ref\<close>: \<open>None\<close> is \<open>continue\<close>,
  otherwise the branch appended and the number of \<open>time.Now()\<close> calls made so far.
\<close>

definition branchOfLine :: "env \<Rightarrow> string \<Rightarrow> nat \<Rightarrow> (Branch \<times> nat) option" where
  "branchOfLine e line k =
     (if line = [] then None
      else
        let parts = SplitN line ''|'' 3 in
        if length parts \<noteq> 3 then None
        else
          let branchName = TrimSpace (parts ! 0);
              dateStr = TrimSpace (parts ! 1);
              commitTitle = TrimSpace (parts ! 2)
          in
            if branchName = [] then None
            else
              let (commitDate, k') =
                    (case parseGitDate e dateStr of
                       Some t \<Rightarrow> (t, k)
                     | None \<Rightarrow> (now e k, Suc k));
                  isRemote = HasPrefix branchName ''origin/'';
                  displayName =
                    (if isRemote then TrimPrefix branchName ''origin/'' @ '' (remote)''
                     else branchName)
              in Some (\<lparr>Name = displayName, CommitDate = commitDate,
                         CommitTitle = commitTitle, LastUsed = zeroTime,
                         IsRemote = isRemote, RelativeTime = []\<rparr>, k'))"

fun branchesOfLines :: "env \<Rightarrow> string list \<Rightarrow> nat \<Rightarrow> Branch list \<times> nat" where
  "branchesOfLines e [] k = ([], k)"
| "branchesOfLines e (line # lines) k =
     (case branchOfLine e line k of
        None \<Rightarrow> branchesOfLines e lines k
      | Some (branch, k') \<Rightarrow>
          (case branchesOfLines e lines k' of (branches, k'') \<Rightarrow> (branch # branches, k'')))"

definition forEachRef :: "string \<Rightarrow> cmd" where
  "forEachRef refPath =
     [''for-each-ref'', ''--sort=-committerdate'',
      ''--format=%(refname:short)|%(committerdate:iso8601)|%(contents:subject)'', refPath]"

definition getBranchInfo :: "env \<Rightarrow> string \<Rightarrow> nat \<Rightarrow> (error + Branch list) \<times> nat" where
  "getBranchInfo e refPath k =
     (case run e (forEachRef refPath) of
        None \<Rightarrow> (Inl (BranchInfoFailed refPath), k)
      | Some output \<Rightarrow>
          if TrimSpace output = [] then (Inr [], k)
          else
            (case branchesOfLines e (Split (TrimSpace output) nl) k of
               (branches, k') \<Rightarrow> (Inr branches, k')))"

subsection \<open>Author filtering: \<open>findMergeBase\<close> and \<open>branchHasAuthorCommits\<close>\<close>

fun tryBases :: "env \<Rightarrow> string list \<Rightarrow> string \<Rightarrow> string option" where
  "tryBases e [] branchName = None"
| "tryBases e (base # bases) branchName =
     (case run e [''merge-base'', base, branchName] of
        None \<Rightarrow> tryBases e bases branchName
      | Some output \<Rightarrow>
          if TrimSpace output \<noteq> [] then Some (TrimSpace output)
          else tryBases e bases branchName)"

definition findMergeBase :: "env \<Rightarrow> string \<Rightarrow> error + string" where
  "findMergeBase e branchName =
     (case tryBases e [''main'', ''master'', ''develop'', ''dev''] branchName of
        Some mergeBase \<Rightarrow> Inr mergeBase
      | None \<Rightarrow>
          (case run e [''rev-list'', ''--max-parents=0'', ''HEAD''] of
             None \<Rightarrow> Inl RootCommitFailed
           | Some output \<Rightarrow> Inr (TrimSpace output)))"

definition authorMatches ::
  "env \<Rightarrow> string \<Rightarrow> string \<Rightarrow> string \<Rightarrow> string \<Rightarrow> bool" where
  "authorMatches e currentUser email name author \<longleftrightarrow>
     (if author = ''mine'' then email = currentUser \<or> name = currentUser
      else Contains (strings_ToLower e email) (strings_ToLower e author) \<or>
           Contains (strings_ToLower e name) (strings_ToLower e author))"

definition commitLineMatches ::
  "env \<Rightarrow> string list \<Rightarrow> string \<Rightarrow> string \<Rightarrow> bool" where
  "commitLineMatches e authors currentUser line \<longleftrightarrow>
     (if line = [] then False
      else
        let parts = SplitN line ''|'' 2 in
        if length parts \<noteq> 2 then False
        else
          let email = TrimSpace (parts ! 0); name = TrimSpace (parts ! 1)
          in list_ex (authorMatches e currentUser email name) authors)"

definition branchKey :: "Branch \<Rightarrow> string" where
  "branchKey branch =
     (if IsRemote branch then TrimSuffix (Name branch) '' (remote)'' else Name branch)"

definition logCmd :: "string \<Rightarrow> string \<Rightarrow> cmd" where
  "logCmd mergeBase gitBranchName =
     [''log'', ''--format=%ae|%an'', mergeBase @ ''..'' @ gitBranchName]"

definition gitBranchName :: "Branch \<Rightarrow> string" where
  "gitBranchName branch =
     (if IsRemote branch then ''origin/'' @ branchKey branch else branchKey branch)"

definition branchHasAuthorCommits ::
  "revision \<Rightarrow> env \<Rightarrow> Branch \<Rightarrow> string list \<Rightarrow> string \<Rightarrow> error + bool" where
  "branchHasAuthorCommits rv e branch authors currentUser =
     (let branchName = branchKey branch in
      if branchName = ''main'' \<or> branchName = ''master'' then Inr True
      else
        case findMergeBase e (gitBranchName branch) of
          Inl err \<Rightarrow> Inr True
        | Inr mergeBase \<Rightarrow>
            (case run e (logCmd mergeBase (gitBranchName branch)) of
               None \<Rightarrow> Inr True
             | Some output \<Rightarrow>
                 if TrimSpace output = [] then
                   (case rv of RevA \<Rightarrow> Inr True | RevB \<Rightarrow> Inr False)
                 else
                   Inr (list_ex (commitLineMatches e authors currentUser)
                          (Split (TrimSpace output) nl))))"

subsection \<open>\<open>GetRecentBranches\<close>\<close>

definition reflogCmd :: cmd where
  "reflogCmd =
     [''reflog'', ''--all'', ''--grep-reflog=checkout:'', ''--format=%gd|%gs|%gt'']"

text \<open>One round of the loop over the reflog lines, on the map \<open>branchLastUsed\<close>.\<close>

definition reflogLine :: "env \<Rightarrow> (string \<rightharpoonup> time) \<Rightarrow> string \<Rightarrow> (string \<rightharpoonup> time)" where
  "reflogLine e branchLastUsed line =
     (if line = [] then branchLastUsed
      else
        let parts = SplitN line ''|'' 3 in
        if length parts \<noteq> 3 then branchLastUsed
        else
          let subject = parts ! 1; timestampStr = parts ! 2 in
          if Contains subject ''checkout: moving from'' \<and> Contains subject '' to '' then
            let targetBranch = TrimSpace (Split subject '' to '' ! 1) in
            (case parseTimestamp e timestampStr of
               None \<Rightarrow> branchLastUsed
             | Some timestamp \<Rightarrow>
                 (case branchLastUsed targetBranch of
                    None \<Rightarrow> branchLastUsed(targetBranch \<mapsto> timestamp)
                  | Some existing \<Rightarrow>
                      if existing < timestamp then branchLastUsed(targetBranch \<mapsto> timestamp)
                      else branchLastUsed))
          else branchLastUsed)"

definition parseReflog :: "env \<Rightarrow> string \<Rightarrow> (string \<rightharpoonup> time)" where
  "parseReflog e reflogOutput =
     foldl (reflogLine e) Map.empty (Split (TrimSpace reflogOutput) nl)"

text \<open>
  Lines 89 to 93: the current branch, \<open>''''\<close> when the query fails, is stamped with
  \<open>time.Now()\<close>. The second component counts the calls of \<open>time.Now()\<close>.
\<close>

definition currentBranchOf :: "env \<Rightarrow> string" where
  "currentBranchOf e = (case GetCurrentBranch e of None \<Rightarrow> [] | Some b \<Rightarrow> b)"

definition lastUsedTable :: "env \<Rightarrow> string \<Rightarrow> (string \<rightharpoonup> time) \<times> nat" where
  "lastUsedTable e reflogOutput =
     (let branchLastUsed = parseReflog e reflogOutput;
          currentBranch = currentBranchOf e
      in if currentBranch \<noteq> [] then (branchLastUsed(currentBranch \<mapsto> now e 0), 1)
         else (branchLastUsed, 0))"

text \<open>Lines 95 to 108: the local branches, then the remote ones if requested.\<close>

definition remoteBranchesOf :: "env \<Rightarrow> bool \<Rightarrow> nat \<Rightarrow> Branch list" where
  "remoteBranchesOf e includeRemote k =
     (if includeRemote then
        (case fst (getBranchInfo e ''refs/remotes/'' k) of
           Inl err \<Rightarrow> []
         | Inr remoteBranches \<Rightarrow> remoteBranches)
      else [])"

text \<open>Lines 110 to 134: the author filter; an error of the check keeps the branch.\<close>

definition filterActive :: "string list \<Rightarrow> bool" where
  "filterActive authors \<longleftrightarrow> (case authors of [] \<Rightarrow> False | a # _ \<Rightarrow> a \<noteq> ''all'')"

definition keepBranch :: "revision \<Rightarrow> env \<Rightarrow> string list \<Rightarrow> string \<Rightarrow> Branch \<Rightarrow> bool" where
  "keepBranch rv e authors currentUser branch \<longleftrightarrow>
     (case branchHasAuthorCommits rv e branch authors currentUser of
        Inl err \<Rightarrow> True
      | Inr shouldInclude \<Rightarrow> shouldInclude)"

definition filterBranches ::
  "revision \<Rightarrow> env \<Rightarrow> string list \<Rightarrow> string \<Rightarrow> Branch list \<Rightarrow> Branch list" where
  "filterBranches rv e authors currentUser allBranches =
     (if filterActive authors then filter (keepBranch rv e authors currentUser) allBranches
      else allBranches)"

text \<open>Lines 136 to 152: the last-used time of a branch.\<close>

definition setLastUsed :: "(string \<rightharpoonup> time) \<Rightarrow> Branch \<Rightarrow> Branch" where
  "setLastUsed branchLastUsed branch =
     (case branchLastUsed (branchKey branch) of
        Some lastUsed \<Rightarrow> branch\<lparr>LastUsed := lastUsed\<rparr>
      | None \<Rightarrow> branch\<lparr>LastUsed := CommitDate branch\<rparr>)"

text \<open>Lines 154 to 157: the comparison handed to \<open>sort.Slice\<close>.\<close>

definition usedAfter :: "Branch \<Rightarrow> Branch \<Rightarrow> bool" where
  "usedAfter a b \<longleftrightarrow> LastUsed b < LastUsed a"

text \<open>
  Lines 159 to 162: the slice expression \<open>branches[:count]\<close> panics when the bound is
  negative. It is evaluated only when the bound is below the length, so it is never
  above the capacity.
\<close>

definition limitTo :: "int \<Rightarrow> Branch list \<Rightarrow> error + Branch list" where
  "limitTo cnt branches =
     (if cnt < int (length branches) then
        (if cnt < 0 then Inl (PanicSliceBounds cnt) else Inr (take (nat cnt) branches))
      else Inr branches)"

definition firstIsMine :: "string list \<Rightarrow> bool" where
  "firstIsMine authors \<longleftrightarrow> (case authors of [] \<Rightarrow> False | a # _ \<Rightarrow> a = ''mine'')"

text \<open>Lines 35 to 43: the user's identity, asked for only when the first author is \<open>mine\<close>.\<close>

definition currentUserFor :: "env \<Rightarrow> string list \<Rightarrow> error + string" where
  "currentUserFor e authors =
     (if firstIsMine authors then
        (case GetCurrentUser e of None \<Rightarrow> Inl CurrentUserFailed | Some u \<Rightarrow> Inr u)
      else Inr [])"

text \<open>Lines 45 to 93: the reflog query and the table built from it.\<close>

definition reflogTable :: "env \<Rightarrow> error + ((string \<rightharpoonup> time) \<times> nat)" where
  "reflogTable e =
     (case run e reflogCmd of
        None \<Rightarrow> Inl ReflogFailed
      | Some reflogOutput \<Rightarrow> Inr (lastUsedTable e reflogOutput))"

text \<open>Lines 95 to 108: \<open>allBranches\<close>; only the query for the local branches can fail.\<close>

definition enumerateBranches :: "env \<Rightarrow> bool \<Rightarrow> nat \<Rightarrow> error + Branch list" where
  "enumerateBranches e includeRemote k =
     (case getBranchInfo e ''refs/heads/'' k of
        (Inl err, k') \<Rightarrow> Inl err
      | (Inr localBranches, k') \<Rightarrow> Inr (localBranches @ remoteBranchesOf e includeRemote k'))"

definition GetRecentBranches ::
  "revision \<Rightarrow> env \<Rightarrow> int \<Rightarrow> bool \<Rightarrow> string list \<Rightarrow> error + Branch list" where
  "GetRecentBranches rv e cnt includeRemote authors =
     (if \<not> IsInRepository e then Inl NotInRepository
      else
        case currentUserFor e authors of
          Inl err \<Rightarrow> Inl err
        | Inr currentUser \<Rightarrow>
            (case reflogTable e of
               Inl err \<Rightarrow> Inl err
             | Inr (branchLastUsed, k) \<Rightarrow>
                 (case enumerateBranches e includeRemote k of
                    Inl err \<Rightarrow> Inl err
                  | Inr allBranches \<Rightarrow>
                      let filteredBranches =
                            filterBranches rv e authors currentUser allBranches;
                          branches = map (setLastUsed branchLastUsed) filteredBranches
                      in limitTo cnt (sort_Slice e usedAfter branches))))"

text \<open>
  The call gets as far as the truncation of lines 159 to 162: none of the four earlier
  \<open>return nil, err\<close> is taken.
\<close>

definition reachesTruncation :: "env \<Rightarrow> bool \<Rightarrow> string list \<Rightarrow> bool" where
  "reachesTruncation e includeRemote authors \<longleftrightarrow>
     IsInRepository e \<and>
     (case currentUserFor e authors of
        Inl err \<Rightarrow> False
      | Inr currentUser \<Rightarrow>
          (case reflogTable e of
             Inl err \<Rightarrow> False
           | Inr (branchLastUsed, k) \<Rightarrow>
               (case enumerateBranches e includeRemote k of
                  Inl err \<Rightarrow> False
                | Inr allBranches \<Rightarrow> True)))"

subsection \<open>Commit, stash and checkout\<close>

text \<open>
  The functions that change the repository return the commands they ran, in order, with
  their result.
\<close>

definition commitMessage :: "string \<Rightarrow> string \<Rightarrow> string" where
  "commitMessage subject description =
     (if TrimSpace description \<noteq> [] then subject @ nl @ nl @ description else subject)"

definition CommitChanges :: "env \<Rightarrow> string \<Rightarrow> string \<Rightarrow> cmd list \<times> error option" where
  "CommitChanges e subject description =
     (let stageCmd = [''add'', ''-A''] in
      case run e stageCmd of
        None \<Rightarrow> ([stageCmd], Some StageFailed)
      | Some out \<Rightarrow>
          let message = commitMessage subject description;
              commitCmd = [''commit'', ''-m'', message]
          in (case run e commitCmd of
                None \<Rightarrow> ([stageCmd, commitCmd], Some CommitFailed)
              | Some out' \<Rightarrow> ([stageCmd, commitCmd], None)))"

definition StashChanges :: "env \<Rightarrow> string \<Rightarrow> cmd list \<times> error option" where
  "StashChanges e branchName =
     (let stashMessage = ''WIP: changes before switching to '' @ branchName;
          stashCmd = [''stash'', ''push'', ''-m'', stashMessage]
      in case run e stashCmd of
           None \<Rightarrow> ([stashCmd], Some StashFailed)
         | Some out \<Rightarrow> ([stashCmd], None))"

definition SwitchToBranch :: "env \<Rightarrow> string \<Rightarrow> cmd list \<times> error option" where
  "SwitchToBranch e branchName =
     (let isRemote = HasSuffix branchName '' (remote)'';
          actualBranchName =
            (if isRemote then TrimSuffix branchName '' (remote)'' else branchName);
          checkCmd = [''show-ref'', ''--verify'', ''--quiet'', ''refs/heads/'' @ actualBranchName];
          createCmd = [''checkout'', ''-b'', actualBranchName, ''origin/'' @ actualBranchName];
          checkoutCmd = [''checkout'', actualBranchName]
      in
        if isRemote \<and> run e checkCmd = None then
          (case run e createCmd of
             None \<Rightarrow> ([checkCmd, createCmd], Some (CreateCheckoutFailed actualBranchName))
           | Some out \<Rightarrow> ([checkCmd, createCmd], None))
        else
          (case run e checkoutCmd of
             None \<Rightarrow>
               ((if isRemote then [checkCmd] else []) @ [checkoutCmd],
                Some (CheckoutFailed actualBranchName))
           | Some out \<Rightarrow> ((if isRemote then [checkCmd] else []) @ [checkoutCmd], None)))"

text \<open>
  \<open>HasUncommittedChanges\<close> runs both diffs and never returns an error of its own.
\<close>

definition HasUncommittedChanges :: "env \<Rightarrow> cmd list \<times> (error + bool)" where
  "HasUncommittedChanges e =
     (let stagedCmd = [''diff'', ''--cached'', ''--quiet''];
          unstagedCmd = [''diff'', ''--quiet'']
      in ([stagedCmd, unstagedCmd], Inr (run e stagedCmd = None \<or> run e unstagedCmd = None)))"


section \<open>The program (src/main.go)\<close>

text \<open>
  src/main.go holds two listings as well: \<open>switchToBranch\<close> of the first one (line 118)
  goes straight to the check for uncommitted changes, \<open>switchToBranch\<close> of the second
  one (line 633) asks for the current branch first. \<open>RevA\<close> and \<open>RevB\<close> name them in
  that order. A switch ends with the branch checked out or, on a tree with changes, with
  the call \<open>m.commitModal.Show(branchName)\<close>. The list of commands is the one
  \<open>switchToBranch\<close> runs up to that call: what \<open>Show\<close> of src/modal.go then runs to fill
  the modal (\<open>git status --porcelain=v1\<close> and \<open>git diff --numstat\<close> for the files it lists,
  all of them queries) is not in it.
\<close>

datatype switched = Switched | ModalShown string

definition currentBranchCmd :: cmd where
  "currentBranchCmd = [''rev-parse'', ''--abbrev-ref'', ''HEAD'']"

definition switchIfClean :: "env \<Rightarrow> string \<Rightarrow> cmd list \<times> (error + switched)" where
  "switchIfClean e branchName =
     (case HasUncommittedChanges e of
        (cmds, Inl err) \<Rightarrow> (cmds, Inl ChangesCheckFailed)
      | (cmds, Inr hasChanges) \<Rightarrow>
          if hasChanges then (cmds, Inr (ModalShown branchName))
          else
            (case SwitchToBranch e branchName of
               (cmds', Some err) \<Rightarrow> (cmds @ cmds', Inl err)
             | (cmds', None) \<Rightarrow> (cmds @ cmds', Inr Switched)))"

definition switchToBranch :: "revision \<Rightarrow> env \<Rightarrow> string \<Rightarrow> cmd list \<times> (error + switched)" where
  "switchToBranch rv e branchName =
     (case rv of
        RevA \<Rightarrow> switchIfClean e branchName
      | RevB \<Rightarrow>
          (case GetCurrentBranch e of
             None \<Rightarrow> ([currentBranchCmd], Inl CurrentBranchFailed)
           | Some currentBranch \<Rightarrow>
               let cleanBranchName =
                     (if HasSuffix branchName '' (remote)''
                      then TrimSuffix branchName '' (remote)'' else branchName)
               in
                 if cleanBranchName = currentBranch then
                   ([currentBranchCmd], Inl (AlreadyOnBranch currentBranch))
                 else
                   (case switchIfClean e branchName of
                      (cmds, res) \<Rightarrow> (currentBranchCmd # cmds, res))))"

text \<open>
  A command that changes the repository: a checkout, a commit (with the staging before
  it) or a stash.
\<close>

definition mutating :: "cmd \<Rightarrow> bool" where
  "mutating c \<longleftrightarrow>
     (case c of [] \<Rightarrow> False
      | a # _ \<Rightarrow> a = ''checkout'' \<or> a = ''commit'' \<or> a = ''add'' \<or> a = ''stash'')"

text \<open>The command line: \<open>-n\<close>, \<open>-remote\<close> and \<open>-author\<close>, as \<open>flag.Parse\<close> leaves them.\<close>

record flags =
  flag_n :: int
  flag_remote :: bool
  flag_author :: string

record model =
  m_branches :: "Branch list"
  m_count :: int
  m_includeRemote :: bool
  m_authors :: "string list"

definition parseAuthors :: "string \<Rightarrow> string list" where
  "parseAuthors authorFlag =
     (if authorFlag \<noteq> [] then
        (if authorFlag = ''mine'' then [''mine'']
         else if authorFlag = ''all'' then [''all'']
         else map TrimSpace (Split authorFlag '',''))
      else [''mine''])"

definition initModel :: "flags \<Rightarrow> model" where
  "initModel f =
     \<lparr>m_branches = [], m_count = flag_n f, m_includeRemote = flag_remote f,
      m_authors = parseAuthors (flag_author f)\<rparr>"

definition loadBranches :: "revision \<Rightarrow> env \<Rightarrow> model \<Rightarrow> error + model" where
  "loadBranches rv e m =
     (case GetRecentBranches rv e (m_count m) (m_includeRemote m) (m_authors m) of
        Inl err \<Rightarrow> Inl err
      | Inr branches \<Rightarrow> Inr (m\<lparr>m_branches := branches\<rparr>))"


section \<open>What a call works on\<close>

text \<open>
  The values a call of \<open>GetRecentBranches\<close> holds when it gets to \<open>sort.Slice\<close>: the user
  for \<open>mine\<close>, the table \<open>branchLastUsed\<close>, \<open>allBranches\<close>, \<open>filteredBranches\<close> and the
  slice \<open>branches\<close> that is sorted (empty defaults where the call has returned before).
\<close>

definition currentUserOf :: "env \<Rightarrow> string list \<Rightarrow> string" where
  "currentUserOf e authors = (case currentUserFor e authors of Inl err \<Rightarrow> [] | Inr u \<Rightarrow> u)"

definition lastUsedOf :: "env \<Rightarrow> (string \<rightharpoonup> time) \<times> nat" where
  "lastUsedOf e = (case reflogTable e of Inl err \<Rightarrow> (Map.empty, 0) | Inr p \<Rightarrow> p)"

definition allBranchesOf :: "env \<Rightarrow> bool \<Rightarrow> Branch list" where
  "allBranchesOf e includeRemote =
     (case enumerateBranches e includeRemote (snd (lastUsedOf e)) of
        Inl err \<Rightarrow> [] | Inr allBranches \<Rightarrow> allBranches)"

definition filteredOf :: "revision \<Rightarrow> env \<Rightarrow> bool \<Rightarrow> string list \<Rightarrow> Branch list" where
  "filteredOf rv e includeRemote authors =
     filterBranches rv e authors (currentUserOf e authors) (allBranchesOf e includeRemote)"

definition sortInput :: "revision \<Rightarrow> env \<Rightarrow> bool \<Rightarrow> string list \<Rightarrow> Branch list" where
  "sortInput rv e includeRemote authors =
     map (setLastUsed (fst (lastUsedOf e))) (filteredOf rv e includeRemote authors)"

definition nameAndStamp :: "Branch \<Rightarrow> string \<times> time" where
  "nameAndStamp b = (Name b, LastUsed b)"

text \<open>
  A sort is stable when the elements with the same key come out in the order they went
  in: for every time stamp, the branches stamped with it are the same list before and
  after.
\<close>

definition keepsTies :: "Branch list \<Rightarrow> Branch list \<Rightarrow> bool" where
  "keepsTies before after \<longleftrightarrow>
     list_all (\<lambda>b. filter (\<lambda>x. LastUsed x = LastUsed b) after =
                    filter (\<lambda>x. LastUsed x = LastUsed b) before) before"


text \<open>
  A listing shadows remote branches when it has no remote branch next to a local branch
  of the same name (the name without the \<open>(remote)\<close> suffix).
\<close>

definition shadowsRemotes :: "Branch list \<Rightarrow> bool" where
  "shadowsRemotes bs \<longleftrightarrow>
     list_all (\<lambda>r. IsRemote r \<longrightarrow>
                 \<not> list_ex (\<lambda>l. \<not> IsRemote l \<and> Name l = branchKey r) bs) bs"


section \<open>Two sorting routines and a repository to run the program on\<close>

text \<open>
  A routine that keeps the promise of \<open>sort.Slice\<close>: \<open>insertionSort\<close> takes the elements
  from the left and puts each one before the first element it is \<open>less\<close> than, so equal
  elements stay in the order they came in.
\<close>

fun insertBy :: "('a \<Rightarrow> 'a \<Rightarrow> bool) \<Rightarrow> 'a \<Rightarrow> 'a list \<Rightarrow> 'a list" where
  "insertBy lt x [] = [x]"
| "insertBy lt x (y # ys) = (if lt x y then x # y # ys else y # insertBy lt x ys)"

definition insertionSort :: "('a \<Rightarrow> 'a \<Rightarrow> bool) \<Rightarrow> 'a list \<Rightarrow> 'a list" where
  "insertionSort lt xs = foldl (\<lambda>acc x. insertBy lt x acc) [] xs"

text \<open>
  \<open>sort.Slice\<close> as package \<open>sort\<close> of the Go runtime has it since release 1.19
  (\<open>pdqsort_func\<close> in zsortfunc.go), on a slice of at most 13 elements. The slice is a
  list, \<open>data.Less(i, j)\<close> and \<open>data.Swap(i, j)\<close> work on its indices.

  Up to 12 elements \<open>pdqsort_func\<close> is \<open>insertionSort_func\<close>. With 13 elements its first
  round takes the median of the elements at indices 3, 6 and 9 as pivot
  (\<open>choosePivot_func\<close>), returns if the three were in order and the whole slice is
  (\<open>partialInsertionSort_func\<close>, which moves nothing in a slice shorter than 50), and
  otherwise partitions the slice around the pivot (\<open>partition_func\<close>); the two parts
  have at most 12 elements and are sorted by \<open>insertionSort_func\<close>. The other steps of
  a round are not taken in the first one: the patterns are broken only after an
  unbalanced partition, the slice is reversed only after 12 exchanges in
  \<open>choosePivot_func\<close> (a median of three makes 3 at most), and \<open>partitionEqual_func\<close>
  needs an element before the slice. On a longer slice the runtime goes through
  further rounds on the parts that are longer than 12; those rounds are not modelled,
  and \<open>sort_Slice_go\<close> is run here on 13 elements at most.
\<close>

definition elemAt :: "'a list \<Rightarrow> int \<Rightarrow> 'a" where
  "elemAt xs i = xs ! nat i"

definition Swap :: "'a list \<Rightarrow> int \<Rightarrow> int \<Rightarrow> 'a list" where
  "Swap xs i j = xs[nat i := elemAt xs j, nat j := elemAt xs i]"

definition Less :: "('a \<Rightarrow> 'a \<Rightarrow> bool) \<Rightarrow> 'a list \<Rightarrow> int \<Rightarrow> int \<Rightarrow> bool" where
  "Less lt xs i j \<longleftrightarrow> lt (elemAt xs i) (elemAt xs j)"

text \<open>\<open>insertionSort_func\<close>: the inner loop over \<open>j\<close> and the outer loop over \<open>i\<close>.\<close>

function insertDown :: "('a \<Rightarrow> 'a \<Rightarrow> bool) \<Rightarrow> 'a list \<Rightarrow> int \<Rightarrow> int \<Rightarrow> 'a list" where
  "insertDown lt xs a j =
     (if a < j \<and> Less lt xs j (j - 1) then insertDown lt (Swap xs j (j - 1)) a (j - 1)
      else xs)"
  by pat_completeness auto
termination
  by (relation "measure (\<lambda>(lt, xs, a, j). nat (j - a))") auto

function insertFrom :: "('a \<Rightarrow> 'a \<Rightarrow> bool) \<Rightarrow> 'a list \<Rightarrow> int \<Rightarrow> int \<Rightarrow> int \<Rightarrow> 'a list" where
  "insertFrom lt xs a b i =
     (if i < b then insertFrom lt (insertDown lt xs a i) a b (i + 1) else xs)"
  by pat_completeness auto
termination
  by (relation "measure (\<lambda>(lt, xs, a, b, i). nat (b - i))") auto

definition insertionSort_func :: "('a \<Rightarrow> 'a \<Rightarrow> bool) \<Rightarrow> 'a list \<Rightarrow> int \<Rightarrow> int \<Rightarrow> 'a list" where
  "insertionSort_func lt xs a b = insertFrom lt xs a b (a + 1)"

text \<open>
  \<open>choosePivot_func\<close> on a slice shorter than 50, with \<open>order2_func\<close> and \<open>median_func\<close>;
  \<open>swaps\<close> counts the exchanges.
\<close>

datatype sortedHint = unknownHint | increasingHint | decreasingHint

definition order2_func ::
  "('a \<Rightarrow> 'a \<Rightarrow> bool) \<Rightarrow> 'a list \<Rightarrow> int \<Rightarrow> int \<Rightarrow> nat \<Rightarrow> int \<times> int \<times> nat" where
  "order2_func lt xs a b swaps =
     (if Less lt xs b a then (b, a, Suc swaps) else (a, b, swaps))"

definition median_func ::
  "('a \<Rightarrow> 'a \<Rightarrow> bool) \<Rightarrow> 'a list \<Rightarrow> int \<Rightarrow> int \<Rightarrow> int \<Rightarrow> nat \<Rightarrow> int \<times> nat" where
  "median_func lt xs a b c swaps =
     (case order2_func lt xs a b swaps of (a1, b1, s1) \<Rightarrow>
      case order2_func lt xs b1 c s1 of (b2, c2, s2) \<Rightarrow>
      case order2_func lt xs a1 b2 s2 of (a3, b3, s3) \<Rightarrow> (b3, s3))"

definition choosePivot_func ::
  "('a \<Rightarrow> 'a \<Rightarrow> bool) \<Rightarrow> 'a list \<Rightarrow> int \<Rightarrow> int \<Rightarrow> int \<times> sortedHint" where
  "choosePivot_func lt xs a b =
     (let l = b - a;
          i = a + l div 4 * 1; j = a + l div 4 * 2; k = a + l div 4 * 3;
          (j', swaps) = (if 8 \<le> l then median_func lt xs i j k 0 else (j, 0))
      in if swaps = 0 then (j', increasingHint)
         else if swaps = 12 then (j', decreasingHint)
         else (j', unknownHint))"

text \<open>
  \<open>partialInsertionSort_func\<close> on a slice shorter than 50: the first scan for a pair out
  of order, and the answer whether it got to the end.
\<close>

function firstDescent :: "('a \<Rightarrow> 'a \<Rightarrow> bool) \<Rightarrow> 'a list \<Rightarrow> int \<Rightarrow> int \<Rightarrow> int" where
  "firstDescent lt xs b i =
     (if i < b \<and> \<not> Less lt xs i (i - 1) then firstDescent lt xs b (i + 1) else i)"
  by pat_completeness auto
termination
  by (relation "measure (\<lambda>(lt, xs, b, i). nat (b - i))") auto

definition partialInsertionSort_func ::
  "('a \<Rightarrow> 'a \<Rightarrow> bool) \<Rightarrow> 'a list \<Rightarrow> int \<Rightarrow> int \<Rightarrow> bool" where
  "partialInsertionSort_func lt xs a b \<longleftrightarrow> firstDescent lt xs b (a + 1) = b"

text \<open>
  \<open>partition_func\<close>: the two inner scans, the \<open>for\<close> loop, and the function with its
  first pass. It returns the slice, the new index of the pivot and \<open>alreadyPartitioned\<close>.
\<close>

function scanUp :: "('a \<Rightarrow> 'a \<Rightarrow> bool) \<Rightarrow> 'a list \<Rightarrow> int \<Rightarrow> int \<Rightarrow> int \<Rightarrow> int" where
  "scanUp lt xs a i j = (if i \<le> j \<and> Less lt xs i a then scanUp lt xs a (i + 1) j else i)"
  by pat_completeness auto
termination
  by (relation "measure (\<lambda>(lt, xs, a, i, j). nat (j + 1 - i))") auto

function scanDown :: "('a \<Rightarrow> 'a \<Rightarrow> bool) \<Rightarrow> 'a list \<Rightarrow> int \<Rightarrow> int \<Rightarrow> int \<Rightarrow> int" where
  "scanDown lt xs a i j = (if i \<le> j \<and> \<not> Less lt xs j a then scanDown lt xs a i (j - 1) else j)"
  by pat_completeness auto
termination
  by (relation "measure (\<lambda>(lt, xs, a, i, j). nat (j + 1 - i))") auto

function partitionLoop ::
  "('a \<Rightarrow> 'a \<Rightarrow> bool) \<Rightarrow> 'a list \<Rightarrow> int \<Rightarrow> int \<Rightarrow> int \<Rightarrow> 'a list \<times> int" where
  "partitionLoop lt xs a i j =
     (let i' = scanUp lt xs a i j; j' = scanDown lt xs a i' j
      in if j' < i' then (xs, j')
         else partitionLoop lt (Swap xs i' j') a (i' + 1) (j' - 1))"
  by pat_completeness auto
termination
proof (relation "measure (\<lambda>(lt, xs, a, i, j). nat (j + 1 - i))")
  show "wf (measure (\<lambda>(lt, xs, a, i, j). nat (j + 1 - i)))" by simp
next
  fix lt :: "'a \<Rightarrow> 'a \<Rightarrow> bool" and xs :: "'a list" and a i j i' j' :: int
  assume i': "i' = scanUp lt xs a i j" and j': "j' = scanDown lt xs a i' j"
    and n: "\<not> j' < i'"
  have up: "p \<le> scanUp f ys c p q" for f :: "'a \<Rightarrow> 'a \<Rightarrow> bool" and ys c p q
  proof (induction f ys c p q rule: scanUp.induct)
    case (1 f ys c p q)
    show ?case
    proof (cases "p \<le> q \<and> Less f ys p c")
      case True
      then have "scanUp f ys c p q = scanUp f ys c (p + 1) q" by (subst scanUp.simps) simp
      with 1[OF True] show ?thesis by simp
    next
      case False
      then have "scanUp f ys c p q = p" by (subst scanUp.simps) simp
      then show ?thesis by simp
    qed
  qed
  have down: "scanDown f ys c p q \<le> q" for f :: "'a \<Rightarrow> 'a \<Rightarrow> bool" and ys c p q
  proof (induction f ys c p q rule: scanDown.induct)
    case (1 f ys c p q)
    show ?case
    proof (cases "p \<le> q \<and> \<not> Less f ys q c")
      case True
      then have "scanDown f ys c p q = scanDown f ys c p (q - 1)" by (subst scanDown.simps) simp
      with 1[OF True] show ?thesis by simp
    next
      case False
      then have "scanDown f ys c p q = q" by (subst scanDown.simps) simp
      then show ?thesis by simp
    qed
  qed
  have "i \<le> i'" unfolding i' by (rule up)
  moreover have "j' \<le> j" unfolding j' by (rule down)
  ultimately have "nat (j' - 1 + 1 - (i' + 1)) < nat (j + 1 - i)" using n by linarith
  then show "((lt, Swap xs i' j', a, i' + 1, j' - 1), (lt, xs, a, i, j))
          \<in> measure (\<lambda>(lt, xs, a, i, j). nat (j + 1 - i))"
    by simp
qed

definition partition_func ::
  "('a \<Rightarrow> 'a \<Rightarrow> bool) \<Rightarrow> 'a list \<Rightarrow> int \<Rightarrow> int \<Rightarrow> int \<Rightarrow> 'a list \<times> int \<times> bool" where
  "partition_func lt xs a b pivot =
     (let xs1 = Swap xs a pivot;
          i = scanUp lt xs1 a (a + 1) (b - 1);
          j = scanDown lt xs1 a i (b - 1)
      in if j < i then (Swap xs1 j a, j, True)
         else
           (case partitionLoop lt (Swap xs1 i j) a (i + 1) (j - 1) of
              (xs2, j2) \<Rightarrow> (Swap xs2 j2 a, j2, False)))"

text \<open>
  \<open>sort.Slice\<close>: \<open>pdqsort_func(data, 0, length, limit)\<close>, where \<open>limit\<close> is 4 for 13
  elements and is not used up in one round.
\<close>

definition sort_Slice_go :: "('a \<Rightarrow> 'a \<Rightarrow> bool) \<Rightarrow> 'a list \<Rightarrow> 'a list" where
  "sort_Slice_go lt xs =
     (let b = int (length xs) in
      if b \<le> 12 then insertionSort_func lt xs 0 b
      else
        (case choosePivot_func lt xs 0 b of
           (pivot, hint) \<Rightarrow>
             if hint = increasingHint \<and> partialInsertionSort_func lt xs 0 b then xs
             else
               (case partition_func lt xs 0 b pivot of
                  (xs', mid, alreadyPartitioned) \<Rightarrow>
                    if mid - 0 < b - mid
                    then insertionSort_func lt (insertionSort_func lt xs' 0 mid) (mid + 1) b
                    else insertionSort_func lt (insertionSort_func lt xs' (mid + 1) b) 0 mid)))"

text \<open>\<open>strings.ToLower\<close> on ASCII text, which is all the repositories below have.\<close>

definition toLowerChar :: "char \<Rightarrow> char" where
  "toLowerChar c =
     (case map_of (zip ''ABCDEFGHIJKLMNOPQRSTUVWXYZ'' ''abcdefghijklmnopqrstuvwxyz'') c of
        None \<Rightarrow> c | Some l \<Rightarrow> l)"

definition lowerASCII :: "string \<Rightarrow> string" where
  "lowerASCII s = map toLowerChar s"

text \<open>
  A repository with four local branches and one remote branch. \<open>feat\<close> is checked out;
  its commits are Bob's. \<open>merged\<close> has no commit of its own, the log query of \<open>broken\<close>
  fails, and the working tree is clean. Alice is the user. \<open>time.Parse\<close> reads the dates
  of \<open>for-each-ref\<close> and rejects the reflog's Unix time stamp.
\<close>

definition gitLayout :: string where
  "gitLayout = ''2006-01-02 15:04:05 -0700''"

definition repoCommands :: "(cmd \<times> string) list" where
  "repoCommands =
     [([''rev-parse'', ''--git-dir''], ''.git'' @ nl),
      ([''config'', ''user.email''], ''alice@example.com'' @ nl),
      (reflogCmd, ''HEAD@'' @ ''{0}|checkout: moving from main to feat|1709546400'' @ nl),
      ([''rev-parse'', ''--abbrev-ref'', ''HEAD''], ''feat'' @ nl),
      (forEachRef ''refs/heads/'',
         ''feat|2024-03-04 10:00:00 +0000|add feature'' @ nl @
         ''broken|2024-03-03 10:00:00 +0000|wip'' @ nl @
         ''merged|2024-03-02 10:00:00 +0000|fix typo'' @ nl @
         ''main|2024-03-01 09:00:00 +0000|initial'' @ nl),
      (forEachRef ''refs/remotes/'',
         ''origin/feat|2024-03-04 10:00:00 +0000|add feature'' @ nl),
      ([''merge-base'', ''main'', ''feat''], ''c1'' @ nl),
      ([''merge-base'', ''main'', ''origin/feat''], ''c1'' @ nl),
      ([''merge-base'', ''main'', ''merged''], ''c2'' @ nl),
      ([''merge-base'', ''main'', ''broken''], ''c3'' @ nl),
      (logCmd ''c1'' ''feat'', ''bob@example.com|Bob'' @ nl),
      (logCmd ''c1'' ''origin/feat'', ''bob@example.com|Bob'' @ nl),
      (logCmd ''c2'' ''merged'', []),
      ([''diff'', ''--cached'', ''--quiet''], []),
      ([''diff'', ''--quiet''], []),
      ([''checkout'', ''feat''], []),
      ([''add'', ''-A''], []),
      ([''commit'', ''-m'', ''x''], [])]"

definition repoDates :: "(string \<times> time) list" where
  "repoDates =
     [(''2024-03-04 10:00:00 +0000'', 400), (''2024-03-03 10:00:00 +0000'', 300),
      (''2024-03-02 10:00:00 +0000'', 200), (''2024-03-01 09:00:00 +0000'', 100)]"

definition repo :: env where
  "repo =
     \<lparr>run = map_of repoCommands,
      now = (\<lambda>k. 1000 + int k),
      time_Parse = (\<lambda>layout v. if layout = gitLayout then map_of repoDates v else None),
      strings_ToLower = lowerASCII,
      sort_Slice = insertionSort\<rparr>"

text \<open>
  A repository with 13 local branches, listed by \<open>for-each-ref\<close> from the newest commit
  to the oldest. \<open>hotfix\<close> and \<open>release\<close> are at the same commit; \<open>main\<close>, the oldest, is
  checked out. Its sorting routine is the one of the Go runtime.
\<close>

definition thirteenCommands :: "(cmd \<times> string) list" where
  "thirteenCommands =
     [([''rev-parse'', ''--git-dir''], ''.git'' @ nl),
      (reflogCmd, ''HEAD@'' @ ''{0}|checkout: moving from topic-a to main|1710324000'' @ nl),
      ([''rev-parse'', ''--abbrev-ref'', ''HEAD''], ''main'' @ nl),
      (forEachRef ''refs/heads/'',
         ''hotfix|2024-03-13 10:00:00 +0000|fix crash'' @ nl @
         ''release|2024-03-13 10:00:00 +0000|fix crash'' @ nl @
         ''topic-a|2024-03-12 10:00:00 +0000|a'' @ nl @
         ''topic-b|2024-03-11 10:00:00 +0000|b'' @ nl @
         ''topic-c|2024-03-10 10:00:00 +0000|c'' @ nl @
         ''topic-d|2024-03-09 10:00:00 +0000|d'' @ nl @
         ''topic-e|2024-03-08 10:00:00 +0000|e'' @ nl @
         ''topic-f|2024-03-07 10:00:00 +0000|f'' @ nl @
         ''topic-g|2024-03-06 10:00:00 +0000|g'' @ nl @
         ''topic-h|2024-03-05 10:00:00 +0000|h'' @ nl @
         ''topic-i|2024-03-04 10:00:00 +0000|i'' @ nl @
         ''topic-j|2024-03-03 10:00:00 +0000|j'' @ nl @
         ''main|2024-03-01 09:00:00 +0000|initial'' @ nl)]"

definition thirteenDates :: "(string \<times> time) list" where
  "thirteenDates =
     [(''2024-03-13 10:00:00 +0000'', 130), (''2024-03-12 10:00:00 +0000'', 120),
      (''2024-03-11 10:00:00 +0000'', 110), (''2024-03-10 10:00:00 +0000'', 100),
      (''2024-03-09 10:00:00 +0000'', 90), (''2024-03-08 10:00:00 +0000'', 80),
      (''2024-03-07 10:00:00 +0000'', 70), (''2024-03-06 10:00:00 +0000'', 60),
      (''2024-03-05 10:00:00 +0000'', 50), (''2024-03-04 10:00:00 +0000'', 40),
      (''2024-03-03 10:00:00 +0000'', 30), (''2024-03-01 09:00:00 +0000'', 20)]"

definition repoThirteen :: env where
  "repoThirteen =
     \<lparr>run = map_of thirteenCommands,
      now = (\<lambda>k. 1000 + int k),
      time_Parse = (\<lambda>layout v. if layout = gitLayout then map_of thirteenDates v else None),
      strings_ToLower = lowerASCII,
      sort_Slice = sort_Slice_go\<rparr>"

text \<open>
  The same repository with two more local branches, \<open>a|x\<close> and \<open>a|y\<close>, first in the
  list of \<open>for-each-ref\<close>.
\<close>

definition repoBars :: env where
  "repoBars =
     repo\<lparr>run := map_of
       ((forEachRef ''refs/heads/'',
           ''a|x|2024-03-06 10:00:00 +0000|one'' @ nl @
           ''a|y|2024-03-05 10:00:00 +0000|two'' @ nl @
           ''feat|2024-03-04 10:00:00 +0000|add feature'' @ nl @
           ''main|2024-03-01 09:00:00 +0000|initial'' @ nl) # repoCommands)\<rparr>"

definition noRepo :: env where
  "noRepo = repo\<lparr>run := (\<lambda>c. None)\<rparr>"


section \<open>Lemmas\<close>

subsection \<open>The two sorting routines keep the promise\<close>

lemma mset_insertBy: "mset (insertBy lt x xs) = add_mset x (mset xs)"
  by (induction xs) simp_all

lemma set_insertBy: "set (insertBy lt x xs) = insert x (set xs)"
  by (induction xs) auto

lemma sorted_insertBy:
  assumes sw: "strictWeak lt" and s: "sorted_wrt (\<lambda>a b. \<not> lt b a) xs"
  shows "sorted_wrt (\<lambda>a b. \<not> lt b a) (insertBy lt x xs)"
  using s
proof (induction xs)
  case Nil
  then show ?case by simp
next
  case (Cons y ys)
  from Cons.prems have ys: "\<forall>z\<in>set ys. \<not> lt z y"
    and sys: "sorted_wrt (\<lambda>a b. \<not> lt b a) ys" by simp_all
  show ?case
  proof (cases "lt x y")
    case True
    then have yx: "\<not> lt y x" using sw unfolding strictWeak_def by blast
    have "\<forall>z\<in>set ys. \<not> lt z x"
    proof
      fix z assume "z \<in> set ys"
      with ys have "\<not> lt z y" by simp
      with yx show "\<not> lt z x" using sw unfolding strictWeak_def by blast
    qed
    with True yx ys sys show ?thesis by simp
  next
    case False
    have "sorted_wrt (\<lambda>a b. \<not> lt b a) (insertBy lt x ys)" using Cons.IH sys by simp
    with False ys show ?thesis by (simp add: set_insertBy)
  qed
qed

lemma insertionSort_props:
  assumes "strictWeak lt"
  shows "mset (foldl (\<lambda>acc x. insertBy lt x acc) ys xs) = mset ys + mset xs"
    and "sorted_wrt (\<lambda>a b. \<not> lt b a) ys \<Longrightarrow>
         sorted_wrt (\<lambda>a b. \<not> lt b a) (foldl (\<lambda>acc x. insertBy lt x acc) ys xs)"
proof -
  show "mset (foldl (\<lambda>acc x. insertBy lt x acc) ys xs) = mset ys + mset xs"
    by (induction xs arbitrary: ys) (simp_all add: mset_insertBy)
  show "sorted_wrt (\<lambda>a b. \<not> lt b a) (foldl (\<lambda>acc x. insertBy lt x acc) ys xs)"
    if "sorted_wrt (\<lambda>a b. \<not> lt b a) ys"
    using that by (induction xs arbitrary: ys) (simp_all add: sorted_insertBy[OF assms])
qed

lemma sortContract_insertionSort: "sortContract insertionSort"
  unfolding sortContract_def insertionSort_def
proof (intro allI impI)
  fix lt :: "Branch \<Rightarrow> Branch \<Rightarrow> bool" and xs
  assume sw: "strictWeak lt"
  from insertionSort_props(1)[OF sw, of "[]" xs] insertionSort_props(2)[OF sw, of "[]" xs]
  show "mset (foldl (\<lambda>acc x. insertBy lt x acc) [] xs) = mset xs \<and>
        sorted_wrt (\<lambda>x y. \<not> lt y x) (foldl (\<lambda>acc x. insertBy lt x acc) [] xs)" by simp
qed

lemma strictWeak_usedAfter: "strictWeak usedAfter"
  by (auto simp: strictWeak_def usedAfter_def)

lemma sort_Slice_mset: "sortContract srt \<Longrightarrow> mset (srt usedAfter xs) = mset xs"
  using strictWeak_usedAfter unfolding sortContract_def by blast

lemma sort_Slice_set: "sortContract srt \<Longrightarrow> set (srt usedAfter xs) = set xs"
  using sort_Slice_mset[of srt xs] by (rule_tac mset_eq_setD) simp

lemma sort_Slice_sorted:
  "sortContract srt \<Longrightarrow> sorted_wrt (\<lambda>a b. LastUsed b \<le> LastUsed a) (srt usedAfter xs)"
proof -
  assume "sortContract srt"
  then have "sorted_wrt (\<lambda>a b. \<not> usedAfter b a) (srt usedAfter xs)"
    using strictWeak_usedAfter unfolding sortContract_def by blast
  then show ?thesis by (simp add: usedAfter_def not_less)
qed


subsection \<open>The shape of a call\<close>

lemma limitTo_Inr: "limitTo cnt xs = Inr bs \<longleftrightarrow> 0 \<le> cnt \<and> bs = take (nat cnt) xs"
  by (auto simp: limitTo_def)

lemma limitTo_neg: "cnt < 0 \<Longrightarrow> limitTo cnt xs = Inl (PanicSliceBounds cnt)"
  by (simp add: limitTo_def)

lemma GetRecentBranches_reached:
  assumes "IsInRepository e" "currentUserFor e authors = Inr u"
    "reflogTable e = Inr (tbl, k)" "enumerateBranches e incl k = Inr allB"
  shows "GetRecentBranches rv e cnt incl authors =
     limitTo cnt (sort_Slice e usedAfter (map (setLastUsed tbl) (filterBranches rv e authors u allB)))"
  using assms by (simp add: GetRecentBranches_def)

lemma reachesTruncation_iff:
  "reachesTruncation e incl authors \<longleftrightarrow>
     (\<exists>u tbl k allB. IsInRepository e \<and> currentUserFor e authors = Inr u \<and>
        reflogTable e = Inr (tbl, k) \<and> enumerateBranches e incl k = Inr allB)"
  by (auto simp: reachesTruncation_def split: sum.splits prod.splits)

lemma enumerateBranches_Inl:
  "enumerateBranches e incl k = Inl err \<Longrightarrow> err = BranchInfoFailed ''refs/heads/''"
  by (auto simp: enumerateBranches_def getBranchInfo_def split: option.splits if_splits prod.splits)

lemma currentUserFor_Inl: "currentUserFor e authors = Inl err \<Longrightarrow> err = CurrentUserFailed"
  by (simp add: currentUserFor_def split: option.splits if_splits)

lemma reflogTable_Inl: "reflogTable e = Inl err \<Longrightarrow> err = ReflogFailed"
  by (simp add: reflogTable_def split: option.splits)

lemma GetRecentBranches_early:
  assumes "\<not> reachesTruncation e incl authors"
  shows "GetRecentBranches rv e cnt incl authors \<in>
           {Inl NotInRepository, Inl CurrentUserFailed, Inl ReflogFailed,
            Inl (BranchInfoFailed ''refs/heads/'')}"
proof (cases "IsInRepository e")
  case False
  then show ?thesis by (simp add: GetRecentBranches_def)
next
  case repo: True
  show ?thesis
  proof (cases "currentUserFor e authors")
    case (Inl err)
    with repo currentUserFor_Inl[OF Inl] show ?thesis by (simp add: GetRecentBranches_def)
  next
    case u: (Inr u)
    show ?thesis
    proof (cases "reflogTable e")
      case (Inl err)
      with repo u reflogTable_Inl[OF Inl] show ?thesis by (simp add: GetRecentBranches_def)
    next
      case (Inr p)
      obtain tbl k where p: "p = (tbl, k)" by (cases p)
      show ?thesis
      proof (cases "enumerateBranches e incl k")
        case (Inl err)
        with repo u Inr p enumerateBranches_Inl[OF Inl] show ?thesis
          by (simp add: GetRecentBranches_def)
      next
        case allB: (Inr allB)
        with repo u Inr p assms show ?thesis by (simp add: reachesTruncation_def)
      qed
    qed
  qed
qed

lemma reaches_values:
  assumes "reachesTruncation e incl authors"
  shows "IsInRepository e"
    and "currentUserFor e authors = Inr (currentUserOf e authors)"
    and "reflogTable e = Inr (fst (lastUsedOf e), snd (lastUsedOf e))"
    and "enumerateBranches e incl (snd (lastUsedOf e)) = Inr (allBranchesOf e incl)"
proof -
  from assms obtain u tbl k allB where h: "IsInRepository e" "currentUserFor e authors = Inr u"
    "reflogTable e = Inr (tbl, k)" "enumerateBranches e incl k = Inr allB"
    unfolding reachesTruncation_iff by blast
  show "IsInRepository e" by (rule h(1))
  show "currentUserFor e authors = Inr (currentUserOf e authors)"
    using h(2) by (simp add: currentUserOf_def)
  show "reflogTable e = Inr (fst (lastUsedOf e), snd (lastUsedOf e))"
    using h(3) by (simp add: lastUsedOf_def)
  show "enumerateBranches e incl (snd (lastUsedOf e)) = Inr (allBranchesOf e incl)"
    using h(3) h(4) by (simp add: allBranchesOf_def lastUsedOf_def)
qed

lemma GetRecentBranches_eq:
  assumes "reachesTruncation e incl authors"
  shows "GetRecentBranches rv e cnt incl authors =
           limitTo cnt (sort_Slice e usedAfter (sortInput rv e incl authors))"
  using GetRecentBranches_reached[OF reaches_values[OF assms]]
  by (simp add: sortInput_def filteredOf_def)

lemma GetRecentBranches_Inr_iff:
  "GetRecentBranches rv e cnt incl authors = Inr bs \<longleftrightarrow>
     reachesTruncation e incl authors \<and> 0 \<le> cnt \<and>
     bs = take (nat cnt) (sort_Slice e usedAfter (sortInput rv e incl authors))"
proof (cases "reachesTruncation e incl authors")
  case True
  then show ?thesis by (simp add: GetRecentBranches_eq limitTo_Inr)
next
  case False
  from GetRecentBranches_early[OF False, of rv cnt] show ?thesis using False by auto
qed

lemma sortContract_repo: "sortContract (sort_Slice repo)"
  by (simp add: repo_def sortContract_insertionSort)

lemma reaches_repo_mine: "reachesTruncation repo False [''mine'']"
  by code_simp

subsection \<open>The author filter and the listing\<close>

lemma setLastUsed_fields [simp]:
  "Name (setLastUsed m b) = Name b" "IsRemote (setLastUsed m b) = IsRemote b"
  "branchKey (setLastUsed m b) = branchKey b"
  by (simp_all add: setLastUsed_def branchKey_def split: option.splits)

lemma branchHasAuthorCommits_cong:
  assumes "Name b' = Name b" and "IsRemote b' = IsRemote b"
  shows "branchHasAuthorCommits rv e b' authors u = branchHasAuthorCommits rv e b authors u"
proof -
  have k: "branchKey b' = branchKey b" using assms by (simp add: branchKey_def)
  have g: "gitBranchName b' = gitBranchName b" using assms k by (simp add: gitBranchName_def)
  show ?thesis by (simp only: branchHasAuthorCommits_def k g)
qed

lemma keepBranch_cong:
  assumes "Name b' = Name b" and "IsRemote b' = IsRemote b"
  shows "keepBranch rv e authors u b' = keepBranch rv e authors u b"
  unfolding keepBranch_def by (simp only: branchHasAuthorCommits_cong[OF assms])

lemma filterBranches_mem:
  "b \<in> set (filterBranches rv e authors u allB) \<longleftrightarrow>
     b \<in> set allB \<and> (filterActive authors \<longrightarrow> keepBranch rv e authors u b)"
  by (auto simp: filterBranches_def)

lemma sorted_input_set:
  assumes "sortContract (sort_Slice e)"
    and "GetRecentBranches rv e cnt incl authors = Inr bs"
  shows "set bs \<subseteq> set (sortInput rv e incl authors)"
proof -
  from assms(2) have "bs = take (nat cnt) (sort_Slice e usedAfter (sortInput rv e incl authors))"
    by (simp add: GetRecentBranches_Inr_iff)
  then have "set bs \<subseteq> set (sort_Slice e usedAfter (sortInput rv e incl authors))"
    by (simp add: set_take_subset)
  then show ?thesis by (simp add: sort_Slice_set[OF assms(1)])
qed

lemma kept_branch_listed:
  assumes c: "sortContract (sort_Slice e)"
    and r: "reachesTruncation e incl authors"
    and b: "b \<in> set (allBranchesOf e incl)"
    and k: "filterActive authors \<longrightarrow> keepBranch rv e authors (currentUserOf e authors) b"
    and n: "int (length (allBranchesOf e incl)) \<le> cnt"
  shows "\<exists>bs. GetRecentBranches rv e cnt incl authors = Inr bs \<and>
              setLastUsed (fst (lastUsedOf e)) b \<in> set bs"
proof -
  let ?xs = "sortInput rv e incl authors"
  let ?s = "sort_Slice e usedAfter ?xs"
  have "length (filteredOf rv e incl authors) \<le> length (allBranchesOf e incl)"
    by (simp add: filteredOf_def filterBranches_def)
  then have len: "length ?xs \<le> length (allBranchesOf e incl)" by (simp add: sortInput_def)
  have "length ?s = length ?xs" using sort_Slice_mset[OF c, of ?xs] by (rule mset_eq_length)
  with len n have "int (length ?s) \<le> cnt" by simp
  then have tk: "take (nat cnt) ?s = ?s" by simp
  from n have pos: "0 \<le> cnt" by linarith
  have res: "GetRecentBranches rv e cnt incl authors = Inr ?s"
    using r pos tk by (simp add: GetRecentBranches_Inr_iff)
  have "b \<in> set (filteredOf rv e incl authors)"
    using b k by (simp add: filteredOf_def filterBranches_mem)
  then have "setLastUsed (fst (lastUsedOf e)) b \<in> set ?xs" by (simp add: sortInput_def)
  then have "setLastUsed (fst (lastUsedOf e)) b \<in> set ?s" by (simp add: sort_Slice_set[OF c])
  with res show ?thesis by blast
qed

lemma main_master_key:
  assumes "Name b \<in> {''main'', ''master''} \<or>
           (IsRemote b \<and> Name b \<in> {''main (remote)'', ''master (remote)''})"
  shows "branchKey b = ''main'' \<or> branchKey b = ''master''"
proof -
  have a: "TrimSuffix ''main'' '' (remote)'' = ''main''" by code_simp
  have b: "TrimSuffix ''master'' '' (remote)'' = ''master''" by code_simp
  have c: "TrimSuffix ''main (remote)'' '' (remote)'' = ''main''" by code_simp
  have d: "TrimSuffix ''master (remote)'' '' (remote)'' = ''master''" by code_simp
  from assms consider
      (1) "Name b = ''main''" | (2) "Name b = ''master''"
    | (3) "IsRemote b" "Name b = ''main (remote)''"
    | (4) "IsRemote b" "Name b = ''master (remote)''" by blast
  then show ?thesis
  proof cases
    case 1
    have "branchKey b = ''main''" unfolding branchKey_def 1 a by (rule if_cancel)
    then show ?thesis ..
  next
    case 2
    have "branchKey b = ''master''" unfolding branchKey_def 2 b by (rule if_cancel)
    then show ?thesis ..
  next
    case 3
    have "branchKey b = ''main''" unfolding branchKey_def 3(2) c using 3(1) by (rule if_P)
    then show ?thesis ..
  next
    case 4
    have "branchKey b = ''master''" unfolding branchKey_def 4(2) d using 4(1) by (rule if_P)
    then show ?thesis ..
  qed
qed

lemma map_Name_sortInput:
  "map Name (sortInput rv e incl authors) = map Name (filteredOf rv e incl authors)"
  by (simp add: sortInput_def)

lemma distinct_filteredOf:
  "distinct (map Name (allBranchesOf e incl)) \<Longrightarrow>
   distinct (map Name (filteredOf rv e incl authors))"
  by (simp add: filteredOf_def filterBranches_def distinct_map_filter)

lemma sort_Slice_names:
  assumes "sortContract srt"
  shows "mset (map Name (srt usedAfter xs)) = mset (map Name xs)"
proof -
  have "mset (map Name (srt usedAfter xs)) = image_mset Name (mset (srt usedAfter xs))" by simp
  also have "\<dots> = image_mset Name (mset xs)" by (simp only: sort_Slice_mset[OF assms])
  finally show ?thesis by simp
qed

lemma current_stamped:
  assumes "reachesTruncation e incl authors" and "currentBranchOf e \<noteq> []"
  shows "fst (lastUsedOf e) (currentBranchOf e) = Some (now e 0)"
proof -
  from reaches_values(3)[OF assms(1)] obtain out where "run e reflogCmd = Some out"
    by (auto simp: reflogTable_def split: option.splits)
  then have "lastUsedOf e = lastUsedTable e out" by (simp add: lastUsedOf_def reflogTable_def)
  then show ?thesis using assms(2) by (simp add: lastUsedTable_def Let_def)
qed

lemma sorted_hd_max:
  assumes "sorted_wrt (\<lambda>a b. LastUsed b \<le> LastUsed a) s" and "y \<in> set s"
  shows "LastUsed y \<le> LastUsed (hd s)"
  using assms by (cases s) auto

subsection \<open>The sorting routine of the Go runtime on the two repositories\<close>

text \<open>
  In the repository with 13 branches \<open>sort.Slice\<close> never gets more than 13 elements,
  whatever the flags. On the slices of the first repository it returns what
  \<open>insertionSort\<close> returns.
\<close>

lemma thirteen_at_most:
  "length (sortInput rv repoThirteen includeRemote authors) \<le> 13"
proof -
  have t: "length (allBranchesOf repoThirteen True) = 13" by code_simp
  have f: "length (allBranchesOf repoThirteen False) = 13" by code_simp
  have "length (allBranchesOf repoThirteen includeRemote) = 13"
    using t f by (cases includeRemote) simp_all
  moreover have "length (sortInput rv repoThirteen includeRemote authors)
      \<le> length (allBranchesOf repoThirteen includeRemote)"
    by (simp add: sortInput_def filteredOf_def filterBranches_def)
  ultimately show ?thesis by simp
qed

lemma repo_sorted_as_go:
  "sort_Slice_go usedAfter (sortInput RevA repo True [''all'']) =
     insertionSort usedAfter (sortInput RevA repo True [''all'']) \<and>
   sort_Slice_go usedAfter (sortInput RevA repo False [''bob'']) =
     insertionSort usedAfter (sortInput RevA repo False [''bob'']) \<and>
   sort_Slice_go usedAfter (sortInput RevB repo False [''alice'']) =
     insertionSort usedAfter (sortInput RevB repo False [''alice''])"
  by code_simp


section \<open>The claims\<close>

subsection \<open>C1: the order of the returned list\<close>

text \<open>
  C1. For every repository state on which \<open>GetRecentBranches\<close> succeeds, the returned list
  is in descending order of the last-used time stamp, whatever routine keeping the
  promise of \<open>sort.Slice\<close> does the sorting. (The order among branches with the same
  stamp is not part of that promise: see the counterexample below.)
\<close>

theorem C1_sorted_descending:
  assumes "sortContract (sort_Slice e)"
    and "GetRecentBranches rv e cnt includeRemote authors = Inr bs"
  shows "sorted_wrt (\<lambda>a b. LastUsed b \<le> LastUsed a) bs"
proof -
  from assms(2) have "bs = take (nat cnt) (sort_Slice e usedAfter (sortInput rv e includeRemote authors))"
    by (simp add: GetRecentBranches_Inr_iff)
  then show ?thesis using sort_Slice_sorted[OF assms(1)] by (simp add: sorted_wrt_take)
qed

theorem C1_sorted_descending_witness:
  "sortContract (sort_Slice repo) \<and>
   GetRecentBranches RevA repo 10 True [''all''] =
     Inr [\<lparr>Name = ''feat'', CommitDate = 400, CommitTitle = ''add feature'', LastUsed = 1000,
           IsRemote = False, RelativeTime = []\<rparr>,
          \<lparr>Name = ''feat (remote)'', CommitDate = 400, CommitTitle = ''add feature'',
           LastUsed = 1000, IsRemote = True, RelativeTime = []\<rparr>,
          \<lparr>Name = ''broken'', CommitDate = 300, CommitTitle = ''wip'', LastUsed = 300,
           IsRemote = False, RelativeTime = []\<rparr>,
          \<lparr>Name = ''merged'', CommitDate = 200, CommitTitle = ''fix typo'', LastUsed = 200,
           IsRemote = False, RelativeTime = []\<rparr>,
          \<lparr>Name = ''main'', CommitDate = 100, CommitTitle = ''initial'', LastUsed = 100,
           IsRemote = False, RelativeTime = []\<rparr>] \<and>
   sorted_wrt (\<lambda>a b. LastUsed b \<le> LastUsed a)
     [\<lparr>Name = ''feat'', CommitDate = 400, CommitTitle = ''add feature'', LastUsed = 1000,
       IsRemote = False, RelativeTime = []\<rparr>,
      \<lparr>Name = ''feat (remote)'', CommitDate = 400, CommitTitle = ''add feature'',
       LastUsed = 1000, IsRemote = True, RelativeTime = []\<rparr>,
      \<lparr>Name = ''broken'', CommitDate = 300, CommitTitle = ''wip'', LastUsed = 300,
       IsRemote = False, RelativeTime = []\<rparr>,
      \<lparr>Name = ''merged'', CommitDate = 200, CommitTitle = ''fix typo'', LastUsed = 200,
       IsRemote = False, RelativeTime = []\<rparr>,
      \<lparr>Name = ''main'', CommitDate = 100, CommitTitle = ''initial'', LastUsed = 100,
       IsRemote = False, RelativeTime = []\<rparr>]"
proof -
  have ok: "GetRecentBranches RevA repo 10 True [''all''] =
     Inr [\<lparr>Name = ''feat'', CommitDate = 400, CommitTitle = ''add feature'', LastUsed = 1000,
           IsRemote = False, RelativeTime = []\<rparr>,
          \<lparr>Name = ''feat (remote)'', CommitDate = 400, CommitTitle = ''add feature'',
           LastUsed = 1000, IsRemote = True, RelativeTime = []\<rparr>,
          \<lparr>Name = ''broken'', CommitDate = 300, CommitTitle = ''wip'', LastUsed = 300,
           IsRemote = False, RelativeTime = []\<rparr>,
          \<lparr>Name = ''merged'', CommitDate = 200, CommitTitle = ''fix typo'', LastUsed = 200,
           IsRemote = False, RelativeTime = []\<rparr>,
          \<lparr>Name = ''main'', CommitDate = 100, CommitTitle = ''initial'', LastUsed = 100,
           IsRemote = False, RelativeTime = []\<rparr>]"
    by code_simp
  from C1_sorted_descending[OF sortContract_repo ok] sortContract_repo ok
  show ?thesis by blast
qed

text \<open>
  The stable half of C1 fails on the repository with 13 branches, sorted as the Go
  runtime sorts: \<open>hotfix\<close> comes before \<open>release\<close> in the slice that is sorted, both with
  the stamp 130, and after it in the returned list. (The partition step exchanges the
  first element, \<open>hotfix\<close>, with the pivot, which puts it behind \<open>release\<close>; the insertion
  sort of that part does not move it past an equal element.)
\<close>

theorem C1_stability_counterexample:
  "map nameAndStamp (sortInput RevA repoThirteen False [''all'']) =
     [(''hotfix'', 130), (''release'', 130), (''topic-a'', 120), (''topic-b'', 110),
      (''topic-c'', 100), (''topic-d'', 90), (''topic-e'', 80), (''topic-f'', 70),
      (''topic-g'', 60), (''topic-h'', 50), (''topic-i'', 40), (''topic-j'', 30),
      (''main'', 1000)] \<and>
   map_sum id (map nameAndStamp) (GetRecentBranches RevA repoThirteen 20 False [''all'']) =
     Inr [(''main'', 1000), (''release'', 130), (''hotfix'', 130), (''topic-a'', 120),
          (''topic-b'', 110), (''topic-c'', 100), (''topic-d'', 90), (''topic-e'', 80),
          (''topic-f'', 70), (''topic-g'', 60), (''topic-h'', 50), (''topic-i'', 40),
          (''topic-j'', 30)] \<and>
   map_sum id (keepsTies (sortInput RevA repoThirteen False [''all'']))
     (GetRecentBranches RevA repoThirteen 20 False [''all'']) = Inr False"
proof -
  have a: "map nameAndStamp (sortInput RevA repoThirteen False [''all'']) =
     [(''hotfix'', 130), (''release'', 130), (''topic-a'', 120), (''topic-b'', 110),
      (''topic-c'', 100), (''topic-d'', 90), (''topic-e'', 80), (''topic-f'', 70),
      (''topic-g'', 60), (''topic-h'', 50), (''topic-i'', 40), (''topic-j'', 30),
      (''main'', 1000)]" by code_simp
  have b: "map_sum id (map nameAndStamp)
       (GetRecentBranches RevA repoThirteen 20 False [''all'']) =
     Inr [(''main'', 1000), (''release'', 130), (''hotfix'', 130), (''topic-a'', 120),
          (''topic-b'', 110), (''topic-c'', 100), (''topic-d'', 90), (''topic-e'', 80),
          (''topic-f'', 70), (''topic-g'', 60), (''topic-h'', 50), (''topic-i'', 40),
          (''topic-j'', 30)]" by code_simp
  have c: "map_sum id (keepsTies (sortInput RevA repoThirteen False [''all'']))
     (GetRecentBranches RevA repoThirteen 20 False [''all'']) = Inr False" by code_simp
  from a b c show ?thesis by (intro conjI)
qed


subsection \<open>C2: a branch with no commit of its own\<close>

text \<open>
  C2. Take a branch other than main and master, an active author filter, a merge base
  that is found and a log query that succeeds with no commit. In the listing \<open>RevB\<close> of
  \<open>git.go\<close> the check answers no, the filter drops the branch and no branch of that name
  and kind is in the returned list. In the listing \<open>RevA\<close> the check answers yes and the
  filter keeps the branch.
\<close>

theorem C2_no_unique_commits:
  assumes "branchKey b \<noteq> ''main''" and "branchKey b \<noteq> ''master''"
    and "filterActive authors"
    and "findMergeBase e (gitBranchName b) = Inr mergeBase"
    and "run e (logCmd mergeBase (gitBranchName b)) = Some output"
    and "TrimSpace output = []"
  shows "branchHasAuthorCommits RevB e b authors currentUser = Inr False \<and>
         b \<notin> set (filterBranches RevB e authors currentUser allBranches) \<and>
         (sortContract (sort_Slice e) \<and>
          GetRecentBranches RevB e cnt includeRemote authors = Inr bs \<longrightarrow>
            (\<forall>r\<in>set bs. Name r \<noteq> Name b \<or> IsRemote r \<noteq> IsRemote b)) \<and>
         branchHasAuthorCommits RevA e b authors currentUser = Inr True \<and>
         (b \<in> set allBranches \<longrightarrow>
            b \<in> set (filterBranches RevA e authors currentUser allBranches))"
proof -
  have fB: "\<And>u. branchHasAuthorCommits RevB e b authors u = Inr False"
    using assms by (simp add: branchHasAuthorCommits_def)
  have fA: "\<And>u. branchHasAuthorCommits RevA e b authors u = Inr True"
    using assms by (simp add: branchHasAuthorCommits_def)
  have nk: "\<And>u. \<not> keepBranch RevB e authors u b" using fB by (simp add: keepBranch_def)
  have kA: "\<And>u. keepBranch RevA e authors u b" using fA by (simp add: keepBranch_def)
  have res: "\<forall>r\<in>set bs. Name r \<noteq> Name b \<or> IsRemote r \<noteq> IsRemote b"
    if c: "sortContract (sort_Slice e)"
      and ok: "GetRecentBranches RevB e cnt includeRemote authors = Inr bs"
  proof
    fix r assume "r \<in> set bs"
    with sorted_input_set[OF c ok] have "r \<in> set (sortInput RevB e includeRemote authors)" by blast
    then obtain b' where b': "b' \<in> set (filteredOf RevB e includeRemote authors)"
      and r: "r = setLastUsed (fst (lastUsedOf e)) b'" by (auto simp: sortInput_def)
    from b' assms(3) have kb: "keepBranch RevB e authors (currentUserOf e authors) b'"
      by (simp add: filteredOf_def filterBranches_mem)
    show "Name r \<noteq> Name b \<or> IsRemote r \<noteq> IsRemote b"
    proof (rule ccontr)
      assume "\<not> (Name r \<noteq> Name b \<or> IsRemote r \<noteq> IsRemote b)"
      with r have "Name b' = Name b" "IsRemote b' = IsRemote b" by simp_all
      from keepBranch_cong[OF this] kb nk show False by simp
    qed
  qed
  from fB fA nk kA res assms(3) show ?thesis by (simp add: filterBranches_mem)
qed

theorem C2_no_unique_commits_witness:
  "filterActive [''alice''] \<and> findMergeBase repo ''merged'' = Inr ''c2'' \<and>
   run repo (logCmd ''c2'' ''merged'') = Some [] \<and>
   branchHasAuthorCommits RevB repo
     \<lparr>Name = ''merged'', CommitDate = 200, CommitTitle = ''fix typo'', LastUsed = 0,
      IsRemote = False, RelativeTime = []\<rparr> [''alice''] ''alice@example.com'' = Inr False \<and>
   branchHasAuthorCommits RevA repo
     \<lparr>Name = ''merged'', CommitDate = 200, CommitTitle = ''fix typo'', LastUsed = 0,
      IsRemote = False, RelativeTime = []\<rparr> [''alice''] ''alice@example.com'' = Inr True \<and>
   \<lparr>Name = ''merged'', CommitDate = 200, CommitTitle = ''fix typo'', LastUsed = 0,
     IsRemote = False, RelativeTime = []\<rparr>
     \<notin> set (filterBranches RevB repo [''alice''] ''alice@example.com''
              (allBranchesOf repo False)) \<and>
   GetRecentBranches RevB repo 10 False [''alice''] =
     Inr [\<lparr>Name = ''broken'', CommitDate = 300, CommitTitle = ''wip'', LastUsed = 300,
           IsRemote = False, RelativeTime = []\<rparr>,
          \<lparr>Name = ''main'', CommitDate = 100, CommitTitle = ''initial'', LastUsed = 100,
           IsRemote = False, RelativeTime = []\<rparr>]"
proof -
  let ?b = "\<lparr>Name = ''merged'', CommitDate = 200, CommitTitle = ''fix typo'', LastUsed = 0,
      IsRemote = False, RelativeTime = []\<rparr>"
  have k1: "branchKey ?b \<noteq> ''main''" by code_simp
  have k2: "branchKey ?b \<noteq> ''master''" by code_simp
  have fa: "filterActive [''alice'']" by code_simp
  have g: "gitBranchName ?b = ''merged''" by code_simp
  have f1: "findMergeBase repo ''merged'' = Inr ''c2''" by code_simp
  have f2: "run repo (logCmd ''c2'' ''merged'') = Some []" by code_simp
  have f1': "findMergeBase repo (gitBranchName ?b) = Inr ''c2''" by (simp only: g f1)
  have f2': "run repo (logCmd ''c2'' (gitBranchName ?b)) = Some []" by (simp only: g f2)
  have t: "TrimSpace [] = []" by code_simp
  have ok: "GetRecentBranches RevB repo 10 False [''alice''] =
     Inr [\<lparr>Name = ''broken'', CommitDate = 300, CommitTitle = ''wip'', LastUsed = 300,
           IsRemote = False, RelativeTime = []\<rparr>,
          \<lparr>Name = ''main'', CommitDate = 100, CommitTitle = ''initial'', LastUsed = 100,
           IsRemote = False, RelativeTime = []\<rparr>]" by code_simp
  note T = C2_no_unique_commits[OF k1 k2 fa f1' f2' t,
      of "''alice@example.com''" "allBranchesOf repo False" 10 False "[]"]
  show ?thesis
    by (intro conjI fa f1 f2 ok T[THEN conjunct1] T[THEN conjunct2, THEN conjunct1]
          T[THEN conjunct2, THEN conjunct2, THEN conjunct2, THEN conjunct1])
qed

text \<open>
  C2 as written fails on the listing \<open>RevA\<close>: \<open>merged\<close>, whose log query returns nothing,
  is in the list filtered for Alice.
\<close>

theorem C2_included_anyway_counterexample:
  "filterActive [''alice''] \<and> findMergeBase repo ''merged'' = Inr ''c2'' \<and>
   run repo (logCmd ''c2'' ''merged'') = Some [] \<and>
   map_sum id (map Name) (GetRecentBranches RevA repo 10 False [''alice'']) =
     Inr [''broken'', ''merged'', ''main'']"
  by code_simp


subsection \<open>C3: names in the listing\<close>

text \<open>
  C3. For every successful call: if the names of the enumerated branches (the local
  names, and the remote names with their \<open>(remote)\<close> suffix) are pairwise different, so
  are the names of the returned list. Nothing is shadowed: with no author filter and a
  limit that is large enough, the returned names are the enumerated names, the remote
  twin of a local branch among them.
\<close>

theorem C3_names_listed_once:
  assumes "sortContract (sort_Slice e)"
    and "GetRecentBranches rv e cnt includeRemote authors = Inr bs"
    and "distinct (map Name (allBranchesOf e includeRemote))"
  shows "distinct (map Name bs) \<and>
         (\<not> filterActive authors \<and> int (length (allBranchesOf e includeRemote)) \<le> cnt \<longrightarrow>
            mset (map Name bs) = mset (map Name (allBranchesOf e includeRemote)))"
proof -
  let ?xs = "sortInput rv e includeRemote authors"
  let ?s = "sort_Slice e usedAfter ?xs"
  from assms(2) have bs: "bs = take (nat cnt) ?s" and pos: "0 \<le> cnt"
    by (simp_all add: GetRecentBranches_Inr_iff)
  have dx: "distinct (map Name ?xs)"
    using distinct_filteredOf[OF assms(3)] by (simp only: map_Name_sortInput)
  have ms: "mset (map Name ?s) = mset (map Name ?xs)" by (rule sort_Slice_names[OF assms(1)])
  have ds: "distinct (map Name ?s)" using dx mset_eq_imp_distinct_iff[OF ms] by simp
  have d: "distinct (map Name bs)" unfolding bs take_map[symmetric] using ds by (rule distinct_take)
  have full: "mset (map Name bs) = mset (map Name (allBranchesOf e includeRemote))"
    if na: "\<not> filterActive authors" and n: "int (length (allBranchesOf e includeRemote)) \<le> cnt"
  proof -
    have f: "filteredOf rv e includeRemote authors = allBranchesOf e includeRemote"
      using na by (simp add: filteredOf_def filterBranches_def)
    have "length ?s = length ?xs" using sort_Slice_mset[OF assms(1), of ?xs] by (rule mset_eq_length)
    also have "\<dots> = length (allBranchesOf e includeRemote)" by (simp add: sortInput_def f)
    finally have "int (length ?s) \<le> cnt" using n by simp
    then have "bs = ?s" unfolding bs by simp
    then show ?thesis using ms by (simp add: map_Name_sortInput f)
  qed
  from d full show ?thesis by blast
qed

theorem C3_names_listed_once_witness:
  "sortContract (sort_Slice repo) \<and>
   distinct (map Name (allBranchesOf repo True)) \<and>
   (\<exists>bs. GetRecentBranches RevA repo 10 True [''all''] = Inr bs \<and> distinct (map Name bs) \<and>
      mset (map Name bs) = mset (map Name (allBranchesOf repo True)))"
proof -
  have r: "reachesTruncation repo True [''all'']" by code_simp
  then have ok: "GetRecentBranches RevA repo 10 True [''all''] =
      Inr (take (nat 10) (sort_Slice repo usedAfter (sortInput RevA repo True [''all''])))"
    by (simp add: GetRecentBranches_Inr_iff)
  have d: "distinct (map Name (allBranchesOf repo True))" by code_simp
  have na: "\<not> filterActive [''all'']" by code_simp
  have n: "int (length (allBranchesOf repo True)) \<le> 10" by code_simp
  note T = C3_names_listed_once[OF sortContract_repo ok d]
  from T na n ok d sortContract_repo show ?thesis by blast
qed

text \<open>
  C3 as written fails: \<open>origin/feat\<close> is listed as \<open>feat (remote)\<close> next to the local
  branch \<open>feat\<close>. And a name can come twice: the lines of \<open>for-each-ref\<close> are cut at the
  first bar, so the branches \<open>a|x\<close> and \<open>a|y\<close> are both listed as \<open>a\<close>.
\<close>

theorem C3_remote_twin_counterexample:
  "map_sum id (map Name) (GetRecentBranches RevA repo 10 True [''all'']) =
     Inr [''feat'', ''feat (remote)'', ''broken'', ''merged'', ''main''] \<and>
   map_sum id shadowsRemotes (GetRecentBranches RevA repo 10 True [''all'']) = Inr False \<and>
   map_sum id (map Name) (GetRecentBranches RevA repoBars 10 False [''all'']) =
     Inr [''a'', ''a'', ''feat'', ''main'']"
proof -
  have twin: "map_sum id (map Name) (GetRecentBranches RevA repo 10 True [''all'']) =
     Inr [''feat'', ''feat (remote)'', ''broken'', ''merged'', ''main'']" by code_simp
  have shadow: "map_sum id shadowsRemotes (GetRecentBranches RevA repo 10 True [''all'']) =
     Inr False" by code_simp
  have bars: "map_sum id (map Name) (GetRecentBranches RevA repoBars 10 False [''all'']) =
     Inr [''a'', ''a'', ''feat'', ''main'']" by code_simp
  from twin shadow bars show ?thesis by (intro conjI)
qed


subsection \<open>C4: the current branch\<close>

text \<open>
  C4. For every successful call with a limit of at least 1: if the current branch is
  known, a branch with its name as key is left by the author filter, and every other
  branch that is left has a last-used stamp before the time of the call, then the first
  element of the returned list has the name of the current branch as its key (it is the
  local branch, or its remote twin) and is stamped with the time of the call.
\<close>

theorem C4_current_branch_first:
  assumes c: "sortContract (sort_Slice e)"
    and ok: "GetRecentBranches rv e cnt includeRemote authors = Inr bs"
    and lim: "1 \<le> cnt"
    and cur: "currentBranchOf e \<noteq> []"
    and present: "\<exists>b\<in>set (filteredOf rv e includeRemote authors). branchKey b = currentBranchOf e"
    and others: "\<forall>b\<in>set (sortInput rv e includeRemote authors).
                   branchKey b \<noteq> currentBranchOf e \<longrightarrow> LastUsed b < now e 0"
  shows "bs \<noteq> [] \<and> branchKey (hd bs) = currentBranchOf e \<and> LastUsed (hd bs) = now e 0"
proof -
  let ?xs = "sortInput rv e includeRemote authors"
  let ?s = "sort_Slice e usedAfter ?xs"
  let ?tbl = "fst (lastUsedOf e)"
  from ok have r: "reachesTruncation e includeRemote authors" and bs: "bs = take (nat cnt) ?s"
    by (simp_all add: GetRecentBranches_Inr_iff)
  have tbl: "?tbl (currentBranchOf e) = Some (now e 0)" by (rule current_stamped[OF r cur])
  have stamp: "LastUsed (setLastUsed ?tbl b) = now e 0" if "branchKey b = currentBranchOf e" for b
    using that tbl by (simp add: setLastUsed_def)
  from present obtain b0 where b0: "b0 \<in> set (filteredOf rv e includeRemote authors)"
    and k0: "branchKey b0 = currentBranchOf e" by blast
  let ?x0 = "setLastUsed ?tbl b0"
  have x0: "?x0 \<in> set ?xs" using b0 by (simp add: sortInput_def)
  have sets: "set ?s = set ?xs" by (rule sort_Slice_set[OF c])
  from x0 sets have ne: "?s \<noteq> []" by auto
  from lim have "0 < nat cnt" by simp
  with ne bs have bne: "bs \<noteq> []" and hd: "hd bs = hd ?s" by (simp_all add: hd_take)
  from ne have "hd ?s \<in> set ?xs" using sets hd_in_set by blast
  then obtain b' where b': "b' \<in> set (filteredOf rv e includeRemote authors)"
    and h: "hd ?s = setLastUsed ?tbl b'" by (auto simp: sortInput_def)
  have le: "LastUsed ?x0 \<le> LastUsed (hd ?s)"
    using sorted_hd_max[OF sort_Slice_sorted[OF c]] x0 sets by blast
  have key: "branchKey (hd ?s) = currentBranchOf e"
  proof (rule ccontr)
    assume n: "branchKey (hd ?s) \<noteq> currentBranchOf e"
    from ne sets have "hd ?s \<in> set ?xs" using hd_in_set by blast
    with others n have "LastUsed (hd ?s) < now e 0" by blast
    with le stamp[OF k0] show False by simp
  qed
  then have "branchKey b' = currentBranchOf e" by (simp add: h)
  then have "LastUsed (hd ?s) = now e 0" using stamp h by simp
  with bne key hd show ?thesis by simp
qed

theorem C4_current_branch_first_witness:
  "sortContract (sort_Slice repo) \<and> currentBranchOf repo = ''feat'' \<and> now repo 0 = 1000 \<and>
   GetRecentBranches RevA repo 10 False [''bob''] =
     Inr [\<lparr>Name = ''feat'', CommitDate = 400, CommitTitle = ''add feature'', LastUsed = 1000,
           IsRemote = False, RelativeTime = []\<rparr>,
          \<lparr>Name = ''broken'', CommitDate = 300, CommitTitle = ''wip'', LastUsed = 300,
           IsRemote = False, RelativeTime = []\<rparr>,
          \<lparr>Name = ''merged'', CommitDate = 200, CommitTitle = ''fix typo'', LastUsed = 200,
           IsRemote = False, RelativeTime = []\<rparr>,
          \<lparr>Name = ''main'', CommitDate = 100, CommitTitle = ''initial'', LastUsed = 100,
           IsRemote = False, RelativeTime = []\<rparr>] \<and>
   branchKey (hd [\<lparr>Name = ''feat'', CommitDate = 400, CommitTitle = ''add feature'',
                   LastUsed = 1000, IsRemote = False, RelativeTime = []\<rparr>,
          \<lparr>Name = ''broken'', CommitDate = 300, CommitTitle = ''wip'', LastUsed = 300,
           IsRemote = False, RelativeTime = []\<rparr>,
          \<lparr>Name = ''merged'', CommitDate = 200, CommitTitle = ''fix typo'', LastUsed = 200,
           IsRemote = False, RelativeTime = []\<rparr>,
          \<lparr>Name = ''main'', CommitDate = 100, CommitTitle = ''initial'', LastUsed = 100,
           IsRemote = False, RelativeTime = []\<rparr>]) = currentBranchOf repo"
proof -
  have ok: "GetRecentBranches RevA repo 10 False [''bob''] =
     Inr [\<lparr>Name = ''feat'', CommitDate = 400, CommitTitle = ''add feature'', LastUsed = 1000,
           IsRemote = False, RelativeTime = []\<rparr>,
          \<lparr>Name = ''broken'', CommitDate = 300, CommitTitle = ''wip'', LastUsed = 300,
           IsRemote = False, RelativeTime = []\<rparr>,
          \<lparr>Name = ''merged'', CommitDate = 200, CommitTitle = ''fix typo'', LastUsed = 200,
           IsRemote = False, RelativeTime = []\<rparr>,
          \<lparr>Name = ''main'', CommitDate = 100, CommitTitle = ''initial'', LastUsed = 100,
           IsRemote = False, RelativeTime = []\<rparr>]" by code_simp
  have lim: "(1::int) \<le> 10" by simp
  have cv: "currentBranchOf repo = ''feat''" by code_simp
  have nw: "now repo 0 = 1000" by code_simp
  have cur: "currentBranchOf repo \<noteq> []" by code_simp
  have present: "\<exists>b\<in>set (filteredOf RevA repo False [''bob'']). branchKey b = currentBranchOf repo"
    by code_simp
  have others: "\<forall>b\<in>set (sortInput RevA repo False [''bob'']).
                   branchKey b \<noteq> currentBranchOf repo \<longrightarrow> LastUsed b < now repo 0"
    by code_simp
  note T = C4_current_branch_first[OF sortContract_repo ok lim cur present others]
  show ?thesis
    by (intro conjI sortContract_repo cv nw ok T[THEN conjunct2, THEN conjunct1])
qed

text \<open>
  C4 as written fails: \<open>feat\<close> is checked out, its commits are Bob's, and the list
  filtered for Alice does not have it.
\<close>

theorem C4_filtered_out_counterexample:
  "currentBranchOf repo = ''feat'' \<and>
   map_sum id (map Name) (GetRecentBranches RevA repo 10 False [''alice'']) =
     Inr [''broken'', ''merged'', ''main''] \<and>
   map_sum id (map Name) (GetRecentBranches RevB repo 10 False [''alice'']) =
     Inr [''broken'', ''main'']"
  by code_simp


subsection \<open>C5: switching to the current branch\<close>

text \<open>
  C5. In the listing \<open>RevB\<close> of \<open>main.go\<close>: when the target, with the \<open>(remote)\<close> suffix
  taken off, is the current branch, \<open>switchToBranch\<close> returns the error
  \<open>AlreadyOnBranch\<close> after the one query for the current branch; no checkout, commit,
  staging or stash command is run.
\<close>

theorem C5_already_on_branch:
  assumes "GetCurrentBranch e = Some currentBranch"
    and "TrimSuffix branchName '' (remote)'' = currentBranch"
  shows "switchToBranch RevB e branchName =
           ([currentBranchCmd], Inl (AlreadyOnBranch currentBranch)) \<and>
         \<not> list_ex mutating (fst (switchToBranch RevB e branchName))"
proof -
  have cl: "(if HasSuffix branchName '' (remote)'' then TrimSuffix branchName '' (remote)''
             else branchName) = currentBranch"
    using assms(2) by (simp add: TrimSuffix_def split: if_splits)
  have sw: "switchToBranch RevB e branchName =
           ([currentBranchCmd], Inl (AlreadyOnBranch currentBranch))"
    unfolding switchToBranch_def using assms(1) cl by (simp add: Let_def)
  have "\<not> mutating currentBranchCmd" by (simp add: mutating_def currentBranchCmd_def)
  with sw show ?thesis by simp
qed

theorem C5_already_on_branch_witness:
  "GetCurrentBranch repo = Some ''feat'' \<and>
   TrimSuffix ''feat (remote)'' '' (remote)'' = ''feat'' \<and>
   switchToBranch RevB repo ''feat (remote)'' =
     ([currentBranchCmd], Inl (AlreadyOnBranch ''feat'')) \<and>
   \<not> list_ex mutating (fst (switchToBranch RevB repo ''feat (remote)''))"
proof -
  have g: "GetCurrentBranch repo = Some ''feat''" by code_simp
  have t: "TrimSuffix ''feat (remote)'' '' (remote)'' = ''feat''" by code_simp
  note T = C5_already_on_branch[OF g t]
  show ?thesis by (intro conjI g t T[THEN conjunct1] T[THEN conjunct2])
qed

text \<open>
  C5 as written fails on the listing \<open>RevA\<close>, whose \<open>switchToBranch\<close> has no such check:
  on a clean tree it runs \<open>git checkout\<close> for the branch that is checked out already.
\<close>

theorem C5_unguarded_counterexample:
  "GetCurrentBranch repo = Some ''feat'' \<and>
   switchToBranch RevA repo ''feat'' =
     ([[''diff'', ''--cached'', ''--quiet''], [''diff'', ''--quiet''], [''checkout'', ''feat'']],
      Inr Switched) \<and>
   list_ex mutating (fst (switchToBranch RevA repo ''feat''))"
  by code_simp


subsection \<open>C6: failing queries keep the branch\<close>




subsection \<open>C7: the commit message\<close>

text \<open>
  C7. \<open>CommitChanges\<close> runs \<open>git add -A\<close> first and stops there with an error if it
  fails. Otherwise it runs \<open>git commit -m\<close> with a message that is the subject alone when
  the body is empty or white space only (what \<open>strings.TrimSpace\<close> takes off, Unicode
  white space with it), and the subject, a blank line and the body when the body has a
  character that is not white space. Subject \<open>x\<close> with an empty body gives the message \<open>x\<close>.
  The call returns no error when the commit succeeds and an error when it fails.
\<close>

theorem C7_commit_message:
  "(\<exists>rest. fst (CommitChanges e subject description) = [''add'', ''-A''] # rest) \<and>
   (run e [''add'', ''-A''] = None \<longrightarrow>
      CommitChanges e subject description = ([[''add'', ''-A'']], Some StageFailed)) \<and>
   (run e [''add'', ''-A''] \<noteq> None \<and> TrimSpace description = [] \<longrightarrow>
      fst (CommitChanges e subject description) =
        [[''add'', ''-A''], [''commit'', ''-m'', subject]]) \<and>
   (run e [''add'', ''-A''] \<noteq> None \<and> TrimSpace description \<noteq> [] \<longrightarrow>
      fst (CommitChanges e subject description) =
        [[''add'', ''-A''], [''commit'', ''-m'', subject @ nl @ nl @ description]]) \<and>
   (run e [''add'', ''-A''] \<noteq> None \<longrightarrow>
      fst (CommitChanges e ''x'' []) = [[''add'', ''-A''], [''commit'', ''-m'', ''x'']]) \<and>
   (run e [''add'', ''-A''] \<noteq> None \<longrightarrow>
      snd (CommitChanges e subject description) =
        (if run e [''commit'', ''-m'', commitMessage subject description] = None
         then Some CommitFailed else None))"
proof (cases "run e [''add'', ''-A'']")
  case None
  then show ?thesis by (simp add: CommitChanges_def)
next
  case (Some out)
  have cmds: "fst (CommitChanges e s d) = [[''add'', ''-A''], [''commit'', ''-m'', commitMessage s d]]"
    for s d using Some by (simp add: CommitChanges_def Let_def split: option.splits)
  have res: "snd (CommitChanges e subject description) =
        (if run e [''commit'', ''-m'', commitMessage subject description] = None
         then Some CommitFailed else None)"
    using Some by (simp add: CommitChanges_def Let_def split: option.splits)
  have blank: "TrimSpace description = [] \<Longrightarrow> commitMessage subject description = subject"
    by (simp add: commitMessage_def)
  have body: "TrimSpace description \<noteq> [] \<Longrightarrow>
      commitMessage subject description = subject @ nl @ nl @ description"
    by (simp add: commitMessage_def)
  have empty: "TrimSpace [] = []" by code_simp
  have x: "commitMessage ''x'' [] = ''x''" by (simp add: commitMessage_def empty)
  have c1: "\<exists>rest. fst (CommitChanges e subject description) = [''add'', ''-A''] # rest"
    by (simp add: cmds)
  have c3: "fst (CommitChanges e subject description) =
        [[''add'', ''-A''], [''commit'', ''-m'', subject]]" if "TrimSpace description = []"
    using blank[OF that] by (simp add: cmds)
  have c4: "fst (CommitChanges e subject description) =
        [[''add'', ''-A''], [''commit'', ''-m'', subject @ nl @ nl @ description]]"
    if "TrimSpace description \<noteq> []"
    using body[OF that] by (simp add: cmds)
  have c5: "fst (CommitChanges e ''x'' []) = [[''add'', ''-A''], [''commit'', ''-m'', ''x'']]"
    by (simp add: cmds x)
  from Some c1 c3 c4 c5 res show ?thesis by simp
qed

theorem C7_commit_message_witness:
  "run repo [''add'', ''-A''] \<noteq> None \<and> TrimSpace [] = [] \<and>
   TrimSpace ''why'' \<noteq> [] \<and> TrimSpace [CHR 0xC2, CHR 0xA0] = [] \<and>
   fst (CommitChanges repo ''x'' []) = [[''add'', ''-A''], [''commit'', ''-m'', ''x'']] \<and>
   snd (CommitChanges repo ''x'' []) = None \<and>
   fst (CommitChanges repo ''x'' [CHR 0xC2, CHR 0xA0]) =
     [[''add'', ''-A''], [''commit'', ''-m'', ''x'']] \<and>
   fst (CommitChanges repo ''x'' ''why'') =
     [[''add'', ''-A''], [''commit'', ''-m'', ''x'' @ nl @ nl @ ''why'']] \<and>
   snd (CommitChanges repo ''x'' ''why'') = Some CommitFailed \<and>
   run noRepo [''add'', ''-A''] = None \<and>
   CommitChanges noRepo ''x'' [] = ([[''add'', ''-A'']], Some StageFailed)"
proof -
  have a: "run repo [''add'', ''-A''] \<noteq> None" by code_simp
  have b: "TrimSpace [] = []" by code_simp
  have c: "TrimSpace ''why'' \<noteq> []" by code_simp
  have n: "TrimSpace [CHR 0xC2, CHR 0xA0] = []" by code_simp
  have d: "run noRepo [''add'', ''-A''] = None" by code_simp
  have ok: "run repo [''commit'', ''-m'', commitMessage ''x'' []] \<noteq> None" by code_simp
  have ko: "run repo [''commit'', ''-m'', commitMessage ''x'' ''why''] = None" by code_simp
  note X = C7_commit_message[of repo "''x''" "[]"]
  note N = C7_commit_message[of repo "''x''" "[CHR 0xC2, CHR 0xA0]"]
  note W = C7_commit_message[of repo "''x''" "''why''"]
  note F = C7_commit_message[of noRepo "''x''" "[]"]
  have x1: "fst (CommitChanges repo ''x'' []) = [[''add'', ''-A''], [''commit'', ''-m'', ''x'']]"
    using X a b by blast
  have x2: "snd (CommitChanges repo ''x'' []) = None" using X a ok by simp
  have n1: "fst (CommitChanges repo ''x'' [CHR 0xC2, CHR 0xA0]) =
     [[''add'', ''-A''], [''commit'', ''-m'', ''x'']]" using N a n by blast
  have w1: "fst (CommitChanges repo ''x'' ''why'') =
     [[''add'', ''-A''], [''commit'', ''-m'', ''x'' @ nl @ nl @ ''why'']]" using W a c by blast
  have w2: "snd (CommitChanges repo ''x'' ''why'') = Some CommitFailed" using W a ko by simp
  have f1: "CommitChanges noRepo ''x'' [] = ([[''add'', ''-A'']], Some StageFailed)"
    using F d by blast
  show ?thesis by (intro conjI a b c n x1 x2 n1 w1 w2 d f1)
qed

text \<open>
  C7 as written fails for a body that is not empty but blank: the message is the subject
  alone, not the subject, a blank line and the body.
\<close>

theorem C7_blank_body_counterexample:
  "'' '' \<noteq> [] \<and>
   fst (CommitChanges repo ''x'' '' '') = [[''add'', ''-A''], [''commit'', ''-m'', ''x'']] \<and>
   fst (CommitChanges repo ''x'' '' '') \<noteq>
     [[''add'', ''-A''], [''commit'', ''-m'', ''x'' @ nl @ nl @ '' '']]"
  by code_simp


subsection \<open>C8: a limit of zero\<close>

text \<open>
  C8. With a limit of 0, a call that gets to the truncation returns the empty list; a
  call that does not returns the error of the query that failed (no repository, no user
  for \<open>mine\<close>, no reflog, no list of local branches).
\<close>

theorem C8_limit_zero:
  "(reachesTruncation e includeRemote authors \<longrightarrow>
      GetRecentBranches rv e 0 includeRemote authors = Inr []) \<and>
   (\<not> reachesTruncation e includeRemote authors \<longrightarrow>
      GetRecentBranches rv e 0 includeRemote authors \<in>
        {Inl NotInRepository, Inl CurrentUserFailed, Inl ReflogFailed,
         Inl (BranchInfoFailed ''refs/heads/'')})"
  using GetRecentBranches_early[of e includeRemote authors rv 0]
  by (simp add: GetRecentBranches_Inr_iff)

theorem C8_limit_zero_witness:
  "reachesTruncation repo False [''mine''] \<and>
   GetRecentBranches RevA repo 0 False [''mine''] = Inr [] \<and>
   \<not> reachesTruncation noRepo False [''mine''] \<and>
   GetRecentBranches RevA noRepo 0 False [''mine''] \<in>
     {Inl NotInRepository, Inl CurrentUserFailed, Inl ReflogFailed,
      Inl (BranchInfoFailed ''refs/heads/'')}"
proof -
  have n: "\<not> reachesTruncation noRepo False [''mine'']" by code_simp
  from C8_limit_zero[of repo False "[''mine'']" RevA] C8_limit_zero[of noRepo False "[''mine'']" RevA]
    reaches_repo_mine n
  show ?thesis by blast
qed

text \<open>
  C8 as written fails: outside a repository the call with limit 0 returns an error.
\<close>

theorem C8_limit_zero_counterexample:
  "GetRecentBranches RevA noRepo 0 False [''all''] = Inl NotInRepository"
  by code_simp


subsection \<open>C9: main and master\<close>

text \<open>
  C9. A branch named main or master, or a remote branch shown as \<open>main (remote)\<close> or
  \<open>master (remote)\<close>, passes \<open>branchHasAuthorCommits\<close> for every list of authors and every
  user; the author filter keeps it, and a call that gets to the truncation with a limit
  that is large enough lists it.
\<close>

theorem C9_main_master_pass:
  assumes "Name b \<in> {''main'', ''master''} \<or>
           (IsRemote b \<and> Name b \<in> {''main (remote)'', ''master (remote)''})"
  shows "branchHasAuthorCommits rv e b authors currentUser = Inr True \<and>
         (b \<in> set allBranches \<longrightarrow>
            b \<in> set (filterBranches rv e authors currentUser allBranches)) \<and>
         (sortContract (sort_Slice e) \<and> reachesTruncation e includeRemote authors \<and>
          b \<in> set (allBranchesOf e includeRemote) \<and>
          int (length (allBranchesOf e includeRemote)) \<le> cnt \<longrightarrow>
            (\<exists>bs. GetRecentBranches rv e cnt includeRemote authors = Inr bs \<and>
                  setLastUsed (fst (lastUsedOf e)) b \<in> set bs))"
proof -
  have key: "branchKey b = ''main'' \<or> branchKey b = ''master''"
    by (rule main_master_key[OF assms])
  have t: "\<And>u. branchHasAuthorCommits rv e b authors u = Inr True"
    unfolding branchHasAuthorCommits_def Let_def using key by (rule if_P)
  then have k: "\<And>u. keepBranch rv e authors u b" by (simp add: keepBranch_def)
  show ?thesis
  proof (intro conjI impI)
    show "branchHasAuthorCommits rv e b authors currentUser = Inr True" by (rule t)
    show "b \<in> set (filterBranches rv e authors currentUser allBranches)"
      if "b \<in> set allBranches" using that k by (simp add: filterBranches_mem)
    show "\<exists>bs. GetRecentBranches rv e cnt includeRemote authors = Inr bs \<and>
                  setLastUsed (fst (lastUsedOf e)) b \<in> set bs"
      if "sortContract (sort_Slice e) \<and> reachesTruncation e includeRemote authors \<and>
          b \<in> set (allBranchesOf e includeRemote) \<and>
          int (length (allBranchesOf e includeRemote)) \<le> cnt"
      using that k by (intro kept_branch_listed) simp_all
  qed
qed

theorem C9_main_master_pass_witness:
  "branchHasAuthorCommits RevB repo
     \<lparr>Name = ''main'', CommitDate = 100, CommitTitle = ''initial'', LastUsed = 0,
      IsRemote = False, RelativeTime = []\<rparr> [''alice''] ''alice@example.com'' = Inr True \<and>
   (\<exists>bs. GetRecentBranches RevB repo 10 False [''alice''] = Inr bs \<and>
      setLastUsed (fst (lastUsedOf repo))
        \<lparr>Name = ''main'', CommitDate = 100, CommitTitle = ''initial'', LastUsed = 0,
         IsRemote = False, RelativeTime = []\<rparr> \<in> set bs)"
proof -
  let ?b = "\<lparr>Name = ''main'', CommitDate = 100, CommitTitle = ''initial'', LastUsed = 0,
      IsRemote = False, RelativeTime = []\<rparr>"
  have h: "Name ?b \<in> {''main'', ''master''} \<or>
           (IsRemote ?b \<and> Name ?b \<in> {''main (remote)'', ''master (remote)''})" by simp
  have r: "reachesTruncation repo False [''alice'']" by code_simp
  have m: "?b \<in> set (allBranchesOf repo False)" by code_simp
  have n: "int (length (allBranchesOf repo False)) \<le> 10" by code_simp
  note T = C9_main_master_pass[OF h, of RevB repo "[''alice'']" "''alice@example.com''" "[]" False 10]
  have hyp: "sortContract (sort_Slice repo) \<and> reachesTruncation repo False [''alice''] \<and>
          ?b \<in> set (allBranchesOf repo False) \<and>
          int (length (allBranchesOf repo False)) \<le> 10"
    by (intro conjI sortContract_repo r m n)
  show ?thesis
    by (rule conjI[OF T[THEN conjunct1] mp[OF T[THEN conjunct2, THEN conjunct2] hyp]])
qed


subsection \<open>C10: a negative count\<close>

text \<open>
  C10. For every call that gets to the truncation: with a negative count the length of
  the sorted slice is above the count, the slice expression has a negative bound and the
  call panics; with a count of 0 or more it returns the first \<open>count\<close> branches. The \<open>-n\<close>
  flag goes into the call as it is, so a negative \<open>-n\<close> makes \<open>loadBranches\<close> panic.
\<close>

theorem C10_negative_count_panics:
  assumes "reachesTruncation e includeRemote authors"
  shows "(cnt < 0 \<longrightarrow>
            cnt < int (length (sort_Slice e usedAfter (sortInput rv e includeRemote authors))) \<and>
            GetRecentBranches rv e cnt includeRemote authors = Inl (PanicSliceBounds cnt)) \<and>
         (0 \<le> cnt \<longrightarrow>
            GetRecentBranches rv e cnt includeRemote authors =
              Inr (take (nat cnt) (sort_Slice e usedAfter (sortInput rv e includeRemote authors)))) \<and>
         (flag_n f < 0 \<and> flag_remote f = includeRemote \<and>
          parseAuthors (flag_author f) = authors \<longrightarrow>
            loadBranches rv e (initModel f) = Inl (PanicSliceBounds (flag_n f)))"
proof -
  have eq: "\<And>c. GetRecentBranches rv e c includeRemote authors =
          limitTo c (sort_Slice e usedAfter (sortInput rv e includeRemote authors))"
    by (rule GetRecentBranches_eq[OF assms])
  have neg: "\<And>c. c < 0 \<Longrightarrow> GetRecentBranches rv e c includeRemote authors = Inl (PanicSliceBounds c)"
    by (simp add: eq limitTo_neg)
  have pos: "0 \<le> cnt \<longrightarrow> GetRecentBranches rv e cnt includeRemote authors =
              Inr (take (nat cnt) (sort_Slice e usedAfter (sortInput rv e includeRemote authors)))"
    using assms by (simp add: GetRecentBranches_Inr_iff)
  have cli: "flag_n f < 0 \<and> flag_remote f = includeRemote \<and>
          parseAuthors (flag_author f) = authors \<longrightarrow>
            loadBranches rv e (initModel f) = Inl (PanicSliceBounds (flag_n f))"
    using neg[of "flag_n f"] by (auto simp: loadBranches_def initModel_def)
  from neg[of cnt] pos cli show ?thesis by simp
qed

theorem C10_negative_count_panics_witness:
  "reachesTruncation repo False [''mine''] \<and>
   GetRecentBranches RevA repo (- 1) False [''mine''] = Inl (PanicSliceBounds (- 1)) \<and>
   GetRecentBranches RevA repo 0 False [''mine''] = Inr [] \<and>
   loadBranches RevA repo (initModel \<lparr>flag_n = - 1, flag_remote = False, flag_author = []\<rparr>) =
     Inl (PanicSliceBounds (- 1))"
proof -
  have p: "parseAuthors (flag_author \<lparr>flag_n = - 1, flag_remote = False, flag_author = []\<rparr>) = [''mine'']"
    by (simp add: parseAuthors_def)
  from C10_negative_count_panics[OF reaches_repo_mine, of "- 1" RevA
         "\<lparr>flag_n = - 1, flag_remote = False, flag_author = []\<rparr>"]
       C10_negative_count_panics[OF reaches_repo_mine, of 0 RevA
         "\<lparr>flag_n = - 1, flag_remote = False, flag_author = []\<rparr>"]
       p reaches_repo_mine
  show ?thesis by simp
qed


end
